theory Spec2Isabelle
  imports Complex_Main "HOL-Library.AList" "HOL-Library.Sublist" "HOL-Library.Multiset"
begin

section \<open>The delivery clusterer of \<open>cluster.py\<close>\<close>

text \<open>
  \<open>SimpleDeliveryClusterer\<close> geocodes addresses through an external service, hands
  the coordinates to a library clustering routine and regroups the addresses by
  cluster label. The service, the random number generator and the clustering routine
  are not part of the repository: they are parameters of the model. Everything the
  code does with them (sleeping, retrying, validating, regrouping, writing the file)
  is modelled as written, on an explicit state that records what has happened.
\<close>

subsection \<open>Data\<close>

type_synonym coords = "real \<times> real"

text \<open>
  The dictionary built at the end of \<open>cluster_addresses\<close> has the keys \<open>location\<close> and
  \<open>stopover\<close>; the one \<open>geocode_address\<close> returns has \<open>coords\<close> in addition.
\<close>

record waypoint =
  location :: string
  stopover :: bool

record geocoded_point = waypoint +
  coords :: coords

record route =
  waypoints :: "waypoint list"

text \<open>A Python dictionary keeps its keys in insertion order: an association list.\<close>

type_synonym driver_routes = "(string \<times> route) list"

text \<open>
  What one call of \<open>self.geolocator.geocode(address)\<close> can do: return a location,
  return \<open>None\<close>, raise \<open>GeocoderTimedOut\<close>, or raise any other \<open>Exception\<close>.
\<close>

datatype response = Found coords | NotFound | TimedOut | Failed

datatype error = ValueError string | IndexError | KeyError string | LibraryError string

datatype event =
    Sleep real
  | Lookup string
  | FitPredict int "int option" "coords list"
  | WriteFile string driver_routes
  | Print string

text \<open>
  The state counts the lookups and the random draws made so far (the external service
  and the generator answer by call number), holds the state of the numerical library's
  global random generator, which differs from run to run, and records the observable
  events in order.
\<close>

record state =
  lookups :: nat
  draws :: nat
  global_rng :: int
  trace :: "event list"

definition start :: state where
  "start = \<lparr>lookups = 0, draws = 0, global_rng = 0, trace = []\<rparr>"

type_synonym service = "nat \<Rightarrow> string \<Rightarrow> response"

text \<open>\<open>random.uniform(a, b)\<close> at its \<open>n\<close>-th call: draw number, \<open>a\<close>, \<open>b\<close>.\<close>

type_synonym generator = "nat \<Rightarrow> real \<Rightarrow> real \<Rightarrow> real"

text \<open>
  \<open>KMeans(n_clusters, random_state).fit_predict(coordinates)\<close>, a library call. Its
  arguments are \<open>n_clusters\<close>, \<open>random_state\<close> (an integer seed, or \<open>None\<close>: then the
  estimator draws from the global generator), the state of that global generator, and
  the data.
\<close>

type_synonym clusterer = "int \<Rightarrow> int option \<Rightarrow> int \<Rightarrow> coords list \<Rightarrow> error + int list"

subsection \<open>Formatting integers\<close>

text \<open>Python's \<open>str\<close> on an integer, as the f-strings of the source use it.\<close>

definition digit_char :: "nat \<Rightarrow> char" where
  "digit_char d = char_of (48 + d)"

fun str_nat :: "nat \<Rightarrow> string" where
  "str_nat n = (if n < 10 then [digit_char n] else str_nat (n div 10) @ [digit_char (n mod 10)])"

declare str_nat.simps [simp del]

definition str_int :: "int \<Rightarrow> string" where
  "str_int k = (if k < 0 then CHR ''-'' # str_nat (nat (- k)) else str_nat (nat k))"

subsection \<open>The effects\<close>

definition sleep :: "real \<Rightarrow> state \<Rightarrow> state" where
  "sleep t s = s\<lparr>trace := trace s @ [Sleep t]\<rparr>"

definition geocode :: "service \<Rightarrow> string \<Rightarrow> state \<Rightarrow> response \<times> state" where
  "geocode svc address s =
     (svc (lookups s) address,
      s\<lparr>lookups := Suc (lookups s), trace := trace s @ [Lookup address]\<rparr>)"

text \<open>\<open>random.uniform(a, b)\<close>: the generator's next value for these bounds.\<close>

definition uniform :: "generator \<Rightarrow> real \<Rightarrow> real \<Rightarrow> state \<Rightarrow> real \<times> state" where
  "uniform rnd a b s = (rnd (draws s) a b, s\<lparr>draws := Suc (draws s)\<rparr>)"

definition fit_predict :: "clusterer \<Rightarrow> int \<Rightarrow> int option \<Rightarrow> coords list \<Rightarrow> state
    \<Rightarrow> (error + int list) \<times> state" where
  "fit_predict km n_clusters random_state coordinates s =
     (km n_clusters random_state (global_rng s) coordinates,
      s\<lparr>trace := trace s @ [FitPredict n_clusters random_state coordinates]\<rparr>)"

definition write_file :: "string \<Rightarrow> driver_routes \<Rightarrow> state \<Rightarrow> state" where
  "write_file name routes s = s\<lparr>trace := trace s @ [WriteFile name routes]\<rparr>"

definition print :: "string \<Rightarrow> state \<Rightarrow> state" where
  "print msg s = s\<lparr>trace := trace s @ [Print msg]\<rparr>"

subsection \<open>\<open>geocode_address\<close>\<close>

text \<open>
  The body of \<open>for i in range(retries)\<close>, over the remaining indices. A location ends
  the call; \<open>None\<close> falls out of the \<open>try\<close> into the next iteration; a timeout backs
  off and goes on unless \<open>i\<close> is the last index; any other exception ends the call.
  After the last index the function returns \<open>None\<close>.
\<close>

fun attempts :: "service \<Rightarrow> generator \<Rightarrow> string \<Rightarrow> nat \<Rightarrow> nat list \<Rightarrow> state
    \<Rightarrow> geocoded_point option \<times> state" where
  "attempts svc rnd address retries [] s = (None, s)"
| "attempts svc rnd address retries (i # rest) s =
     (case geocode svc address (sleep 1 s) of
        (Found c, s1) \<Rightarrow> (Some \<lparr>location = address, stopover = True, coords = c\<rparr>, s1)
      | (NotFound, s1) \<Rightarrow> attempts svc rnd address retries rest s1
      | (TimedOut, s1) \<Rightarrow>
          if int i < int retries - 1
          then (case uniform rnd 0 1 s1 of
                  (jitter, s2) \<Rightarrow>
                    (let wait_time = 2 ^ i + jitter
                     in attempts svc rnd address retries rest (sleep wait_time s2)))
          else (None, s1)
      | (Failed, s1) \<Rightarrow> (None, s1))"

definition geocode_address :: "service \<Rightarrow> generator \<Rightarrow> string \<Rightarrow> state
    \<Rightarrow> geocoded_point option \<times> state" where
  "geocode_address svc rnd address s =
     (let retries = 3 in attempts svc rnd address retries [0..<retries] s)"

subsection \<open>\<open>cluster_addresses\<close>\<close>

text \<open>The first loop: geocode every address in order, keep the successes.\<close>

fun geocode_all :: "service \<Rightarrow> generator \<Rightarrow> string list \<Rightarrow> geocoded_point list \<Rightarrow> state
    \<Rightarrow> geocoded_point list \<times> state" where
  "geocode_all svc rnd [] location_data s = (location_data, s)"
| "geocode_all svc rnd (addr # addrs) location_data s =
     (case geocode_address svc rnd addr s of
        (Some loc, s1) \<Rightarrow> geocode_all svc rnd addrs (location_data @ [loc]) s1
      | (None, s1) \<Rightarrow> geocode_all svc rnd addrs location_data s1)"

definition driver_id_of :: "int \<Rightarrow> string" where
  "driver_id_of cluster_id = ''driver_'' @ str_int (cluster_id + 1)"

text \<open>
  One iteration of the second loop for the label \<open>cluster_id\<close> at index \<open>i\<close>: create the
  driver's entry if the key is new, then append the waypoint to the entry's list.
  Reading \<open>location_data[i]\<close> beyond the list raises \<open>IndexError\<close>, reading a missing
  key raises \<open>KeyError\<close>.
\<close>

definition add_waypoint :: "geocoded_point list \<Rightarrow> nat \<Rightarrow> int \<Rightarrow> driver_routes
    \<Rightarrow> error + driver_routes" where
  "add_waypoint location_data i cluster_id driver_routes =
     (let driver_id = driver_id_of cluster_id;
          routes1 = (if map_of driver_routes driver_id = None
                     then AList.update driver_id \<lparr>waypoints = []\<rparr> driver_routes
                     else driver_routes)
      in if i < length location_data
         then (case map_of routes1 driver_id of
                 None \<Rightarrow> Inl (KeyError driver_id)
               | Some r \<Rightarrow>
                   Inr (AList.update driver_id
                          (r\<lparr>waypoints := waypoints r @
                               [\<lparr>location = location (location_data ! i), stopover = True\<rparr>]\<rparr>)
                          routes1))
         else Inl IndexError)"

fun organize :: "geocoded_point list \<Rightarrow> nat \<Rightarrow> int list \<Rightarrow> driver_routes
    \<Rightarrow> error + driver_routes" where
  "organize location_data i [] driver_routes = Inr driver_routes"
| "organize location_data i (cluster_id # clusters) driver_routes =
     (case add_waypoint location_data i cluster_id driver_routes of
        Inl e \<Rightarrow> Inl e
      | Inr routes1 \<Rightarrow> organize location_data (Suc i) clusters routes1)"

definition not_enough :: "nat \<Rightarrow> int \<Rightarrow> string" where
  "not_enough n num_drivers =
     ''Not enough valid addresses ('' @ str_int (int n) @ '') for '' @ str_int num_drivers
       @ '' drivers''"

definition cluster_addresses :: "clusterer \<Rightarrow> service \<Rightarrow> generator \<Rightarrow> string list \<Rightarrow> int
    \<Rightarrow> state \<Rightarrow> (error + driver_routes) \<times> state" where
  "cluster_addresses km svc rnd addresses num_drivers s =
     (case geocode_all svc rnd addresses [] s of
        (location_data, s1) \<Rightarrow>
          if int (length location_data) < num_drivers
          then (Inl (ValueError (not_enough (length location_data) num_drivers)), s1)
          else (let coordinates = map coords location_data
                in case fit_predict km num_drivers (Some 42) coordinates s1 of
                     (Inl e, s2) \<Rightarrow> (Inl e, s2)
                   | (Inr clusters, s2) \<Rightarrow> (organize location_data 0 clusters [], s2)))"

subsection \<open>\<open>main\<close>\<close>

definition addresses_of_main :: "string list" where
  "addresses_of_main =
     [''15277 Castle Downs Rd NW, Edmonton, AB'',
      ''11920 129 Ave NW, Edmonton, AB'',
      ''15178 127 St NW, Edmonton, AB'',
      ''11320 132 Ave NW, Edmonton, AB'',
      ''4501 30 Ave NW, Edmonton, AB'',
      ''10408 124 St NW, Edmonton, AB'',
      ''10363 Jasper Ave NW, Edmonton, AB'',
      ''4225 118 Ave NW, Edmonton, AB'',
      ''2007 138 Ave NW, Edmonton, AB'',
      ''10025 102A Ave NW, Edmonton, AB T5J 2Z2'']"

definition str_error :: "error \<Rightarrow> string" where
  "str_error e =
     (case e of
        ValueError msg \<Rightarrow> msg
      | IndexError \<Rightarrow> ''list index out of range''
      | KeyError k \<Rightarrow> [CHR 0x27] @ k @ [CHR 0x27]
      | LibraryError msg \<Rightarrow> msg)"

text \<open>
  \<open>main\<close> after the driver count has been read: the \<open>try\<close> block writes the file and
  reports success only when \<open>cluster_addresses\<close> returned; any exception is printed.
\<close>

definition main :: "clusterer \<Rightarrow> service \<Rightarrow> generator \<Rightarrow> int \<Rightarrow> state \<Rightarrow> state" where
  "main km svc rnd num_drivers s =
     (case cluster_addresses km svc rnd addresses_of_main num_drivers s of
        (Inr routes, s1) \<Rightarrow>
          print ''Routes exported to driver_routes.json''
            (write_file ''driver_routes.json'' routes s1)
      | (Inl e, s1) \<Rightarrow> print (''Error: '' @ str_error e) s1)"

subsection \<open>Notions used in the statements\<close>

text \<open>The waypoint that the second loop builds from a geocoded point.\<close>

definition waypoint_of :: "geocoded_point \<Rightarrow> waypoint" where
  "waypoint_of p = \<lparr>location = location p, stopover = True\<rparr>"

text \<open>
  The two dictionary statements of one iteration taken together: append \<open>w\<close> to the
  list under key \<open>k\<close>, creating the entry if the key is new (\<open>add_waypoint_append_to\<close>
  below proves that this is what \<open>add_waypoint\<close> does); \<open>regroup\<close> does it for a list of
  labelled points in order.
\<close>

definition append_to :: "string \<Rightarrow> waypoint \<Rightarrow> driver_routes \<Rightarrow> driver_routes" where
  "append_to k w ps =
     AList.update_with_aux \<lparr>waypoints = []\<rparr> k (\<lambda>r. r\<lparr>waypoints := waypoints r @ [w]\<rparr>) ps"

definition regroup :: "(int \<times> geocoded_point) list \<Rightarrow> driver_routes \<Rightarrow> driver_routes" where
  "regroup pairs dr = fold (\<lambda>(c, p). append_to (driver_id_of c) (waypoint_of p)) pairs dr"

definition waypoints_for :: "driver_routes \<Rightarrow> string \<Rightarrow> waypoint list" where
  "waypoints_for routes d = (case map_of routes d of None \<Rightarrow> [] | Some r \<Rightarrow> waypoints r)"

definition all_waypoints :: "driver_routes \<Rightarrow> waypoint list" where
  "all_waypoints routes = concat (map (\<lambda>(d, r). waypoints r) routes)"

text \<open>
  What the clustering library promises when \<open>1 \<le> n_clusters \<le> n_samples\<close>: it returns
  one label per sample, each in \<open>[0, n_clusters)\<close>.
\<close>

definition kmeans_contract :: "clusterer \<Rightarrow> bool" where
  "kmeans_contract km \<longleftrightarrow>
     (\<forall>k seed g xs. 1 \<le> k \<and> k \<le> int (length xs) \<longrightarrow>
        (\<exists>cs. km k seed g xs = Inr cs \<and> length cs = length xs \<and> (\<forall>c\<in>set cs. 0 \<le> c \<and> c < k)))"

text \<open>
  What the clustering library promises for an integer \<open>random_state\<close>: the result does
  not depend on the state of the global generator.
\<close>

definition seeded_repeatable :: "clusterer \<Rightarrow> bool" where
  "seeded_repeatable km \<longleftrightarrow>
     (\<forall>k seed g g' xs. km k (Some seed) g xs = km k (Some seed) g' xs)"

text \<open>What \<open>random.uniform(a, b)\<close> promises: a value between its two arguments.\<close>

definition draws_within :: "generator \<Rightarrow> bool" where
  "draws_within rnd \<longleftrightarrow> (\<forall>n a b. a \<le> b \<longrightarrow> a \<le> rnd n a b \<and> rnd n a b \<le> b)"

text \<open>
  The retry loop in closed form. A response is retried when it is a timeout or an
  empty result; the loop makes lookups until a response is not retried, three at most.
  An attempt sleeps one second and looks the address up; when the lookup times out and
  the attempt is not the last, it also sleeps the backoff, with the next unused draw.
\<close>

definition retried :: "response \<Rightarrow> bool" where
  "retried r \<longleftrightarrow> r = NotFound \<or> r = TimedOut"

definition attempts_made :: "service \<Rightarrow> string \<Rightarrow> nat \<Rightarrow> nat" where
  "attempts_made svc address n =
     (if \<not> retried (svc n address) then 1
      else if \<not> retried (svc (n + 1) address) then 2 else 3)"

definition timeouts_before :: "service \<Rightarrow> string \<Rightarrow> nat \<Rightarrow> nat \<Rightarrow> nat" where
  "timeouts_before svc address n i =
     length (filter (\<lambda>k. svc (n + k) address = TimedOut) [0..<i])"

definition attempt_events :: "service \<Rightarrow> generator \<Rightarrow> string \<Rightarrow> state \<Rightarrow> nat \<Rightarrow> event list" where
  "attempt_events svc rnd address s i =
     [Sleep 1, Lookup address] @
     (if svc (lookups s + i) address = TimedOut \<and> i < 2
      then [Sleep (2 ^ i + rnd (draws s + timeouts_before svc address (lookups s) i) 0 1)]
      else [])"

text \<open>
  The result of \<open>geocode_address\<close> for each occurrence of an address in the input, in
  order, each call made in the state the one before it left.
\<close>

fun geocode_each :: "service \<Rightarrow> generator \<Rightarrow> string list \<Rightarrow> state
    \<Rightarrow> geocoded_point option list" where
  "geocode_each svc rnd [] s = []"
| "geocode_each svc rnd (addr # addrs) s =
     (case geocode_address svc rnd addr s of
        (r, s1) \<Rightarrow> r # geocode_each svc rnd addrs s1)"

definition successes :: "geocoded_point option list \<Rightarrow> geocoded_point list" where
  "successes rs = concat (map (\<lambda>r. case r of None \<Rightarrow> [] | Some p \<Rightarrow> [p]) rs)"

fun is_fit :: "event \<Rightarrow> bool" where
  "is_fit (FitPredict k seed xs) = True"
| "is_fit _ = False"

fun is_write :: "event \<Rightarrow> bool" where
  "is_write (WriteFile name routes) = True"
| "is_write _ = False"

subsection \<open>Concrete services, generators and clusterers for the examples\<close>

definition always_timeout :: service where "always_timeout n a = TimedOut"

definition never_found :: service where "never_found n a = NotFound"

definition second_try :: service where "second_try n a = (if n = 0 then TimedOut else Found (53, -113))"

definition fails_once :: service where
  "fails_once n a = (if n = 0 then Failed else Found (53, -113))"

definition first_only :: service where
  "first_only n a = (if n = 0 then Found (53, -113) else Failed)"

definition second_only :: service where
  "second_only n a = (if n = 1 then Found (53, -113) else Failed)"

definition fails_after_timeout :: service where
  "fails_after_timeout n a = (if n = 0 then TimedOut else if n = 1 then Failed else Found (53, -113))"

definition found_second :: service where
  "found_second n a = (if n = 0 then NotFound else Found (53, -113))"

definition found_here :: service where
  "found_here n a = Found (53, -113)"

definition finds_all :: service where
  "finds_all n a = Found (real n, 0)"

definition three_found :: service where
  "three_found n a = (if n < 3 then Found (real n, 0) else Failed)"

definition unreachable :: service where
  "unreachable n a = Failed"

definition half_jitter :: generator where
  "half_jitter n a b = (a + b) / 2"

definition round_robin :: clusterer where
  "round_robin k seed g xs =
     (if 1 \<le> k \<and> k \<le> int (length xs)
      then Inr (map (\<lambda>i. (int i + (case seed of None \<Rightarrow> g | Some n \<Rightarrow> 0)) mod k) [0..<length xs])
      else Inl (ValueError ''invalid n_clusters''))"

definition skips_one :: clusterer where
  "skips_one k seed g xs = Inr (map (\<lambda>i. 2 * (int i mod 2)) [0..<length xs])"

section \<open>The geocoder\<close>

lemma range_retries: "[0..<3] = [0, 1, 2]"
  by (simp add: upt_rec)

lemmas effect_defs = geocode_address_def geocode_def sleep_def uniform_def range_retries

lemma three_calls: "\<forall>k<3. P (n + k) \<Longrightarrow> P n \<and> P (Suc n) \<and> P (Suc (Suc n))" for n :: nat
proof -
  assume a: "\<forall>k<3. P (n + k)"
  from a[rule_format, of 0] a[rule_format, of 1] a[rule_format, of 2] show ?thesis by simp
qed

lemma small_ranges: "[0..<1] = [0]" "[0..<2] = [0, 1]" "[0..<Suc 0] = [0]"
  by (simp_all add: upt_rec)

lemma geocode_address_closed_form:
  "geocode_address svc rnd address s =
     (case svc (lookups s + attempts_made svc address (lookups s) - 1) address of
        Found c \<Rightarrow> Some \<lparr>location = address, stopover = True, coords = c\<rparr>
      | _ \<Rightarrow> None,
      s\<lparr>lookups := lookups s + attempts_made svc address (lookups s),
        draws := draws s +
          timeouts_before svc address (lookups s) (min (attempts_made svc address (lookups s)) 2),
        trace := trace s @
          concat (map (attempt_events svc rnd address s)
                    [0..<attempts_made svc address (lookups s)])\<rparr>)"
  by (cases "svc (lookups s) address"; cases "svc (Suc (lookups s)) address";
      cases "svc (Suc (Suc (lookups s))) address")
     (simp_all add: effect_defs attempts_made_def retried_def timeouts_before_def
        attempt_events_def small_ranges numeral_2_eq_2)

lemma below_three: "j < 3 \<Longrightarrow> j = 0 \<or> j = 1 \<or> j = (2::nat)"
  by arith

lemma below_two: "j < 2 \<Longrightarrow> j = 0 \<or> j = (1::nat)"
  by arith

lemma attempts_made_at:
  assumes "j < 3" "\<forall>i<j. retried (svc (n + i) address)" "\<not> retried (svc (n + j) address)"
  shows "attempts_made svc address n = j + 1"
proof -
  from assms(1) have "j = 0 \<or> j = 1 \<or> j = 2" by (rule below_three)
  then show ?thesis
  proof (elim disjE)
    assume "j = 0"
    with assms(3) show ?thesis by (simp add: attempts_made_def)
  next
    assume j: "j = 1"
    with assms(2) have "retried (svc n address)" by simp
    with assms(3) j show ?thesis by (simp add: attempts_made_def)
  next
    assume j: "j = 2"
    with assms(2)[rule_format, of 0] assms(2)[rule_format, of 1]
    have "retried (svc n address)" "retried (svc (n + 1) address)" by simp_all
    with j show ?thesis by (simp add: attempts_made_def)
  qed
qed

lemma ends_at:
  assumes "j < 3" "\<forall>i<j. retried (svc (lookups s + i) address)"
    "\<not> retried (svc (lookups s + j) address)"
  shows "geocode_address svc rnd address s =
     (case svc (lookups s + j) address of
        Found c \<Rightarrow> Some \<lparr>location = address, stopover = True, coords = c\<rparr>
      | _ \<Rightarrow> None,
      s\<lparr>lookups := lookups s + j + 1,
        draws := draws s + timeouts_before svc address (lookups s) j,
        trace := trace s @ concat (map (attempt_events svc rnd address s) [0..<j]) @
                 [Sleep 1, Lookup address]\<rparr>)"
proof -
  have n: "attempts_made svc address (lookups s) = j + 1"
    using assms by (rule attempts_made_at)
  have last: "attempt_events svc rnd address s j = [Sleep 1, Lookup address]"
    using assms(3) by (auto simp: attempt_events_def retried_def)
  have "\<not> (svc (lookups s + j) address = TimedOut)" using assms(3) by (simp add: retried_def)
  then have t: "timeouts_before svc address (lookups s) (min (j + 1) 2) =
      timeouts_before svc address (lookups s) j"
    using assms(1) by (auto simp: timeouts_before_def min_def dest!: below_three)
  show ?thesis
    unfolding geocode_address_closed_form[of svc rnd address s] n t
    by (simp add: last)
qed

lemma attempts_made_after:
  assumes "j < 2" "\<forall>i<j. retried (svc (n + i) address)" "retried (svc (n + j) address)"
  shows "j + 2 \<le> attempts_made svc address n"
proof -
  from assms(1) have "j = 0 \<or> j = 1" by (rule below_two)
  then show ?thesis
  proof
    assume "j = 0"
    with assms(3) show ?thesis by (simp add: attempts_made_def)
  next
    assume j: "j = 1"
    with assms(2) have "retried (svc n address)" by simp
    with assms(3) j show ?thesis by (simp add: attempts_made_def)
  qed
qed

lemma goes_on:
  assumes j: "j < 2" and pre: "\<forall>i<j. retried (svc (lookups s + i) address)"
    and nf: "svc (lookups s + j) address = NotFound"
  shows "lookups s + j + 2 \<le> lookups (snd (geocode_address svc rnd address s)) \<and>
         (\<exists>rest. trace (snd (geocode_address svc rnd address s)) =
            trace s @ concat (map (attempt_events svc rnd address s) [0..<j]) @
            [Sleep 1, Lookup address, Sleep 1, Lookup address] @ rest)"
proof -
  let ?n = "attempts_made svc address (lookups s)"
  let ?ev = "attempt_events svc rnd address s"
  from nf have "retried (svc (lookups s + j) address)" by (simp add: retried_def)
  with j pre have n: "j + 2 \<le> ?n" by (rule attempts_made_after)
  have "?n \<le> 3" by (simp add: attempts_made_def)
  with n j have "(j = 0 \<and> ?n = 2) \<or> (j = 0 \<and> ?n = 3) \<or> (j = 1 \<and> ?n = 3)" by arith
  then have "[0..<?n] = [0..<j] @ [j] @ [Suc j] @ [Suc (Suc j)..<?n]"
    by (elim disjE conjE) (simp_all add: upt_rec)
  then have "concat (map ?ev [0..<?n]) =
      concat (map ?ev [0..<j]) @ ?ev j @ ?ev (Suc j) @ concat (map ?ev [Suc (Suc j)..<?n])"
    by simp
  moreover have "?ev j = [Sleep 1, Lookup address]"
    using nf by (simp add: attempt_events_def)
  moreover have "\<exists>more. ?ev (Suc j) = [Sleep 1, Lookup address] @ more"
    by (simp add: attempt_events_def)
  ultimately obtain more where "concat (map ?ev [0..<?n]) =
      concat (map ?ev [0..<j]) @ [Sleep 1, Lookup address, Sleep 1, Lookup address] @
      (more @ concat (map ?ev [Suc (Suc j)..<?n]))"
    by auto
  with n show ?thesis
    unfolding geocode_address_closed_form[of svc rnd address s] by auto
qed

lemma backoff_is_draw:
  assumes "Sleep t \<in> set (drop (length (trace s)) (trace (snd (geocode_address svc rnd address s))))"
  shows "t = 1 \<or> (\<exists>i<2. svc (lookups s + i) address = TimedOut \<and>
           t = 2 ^ i + rnd (draws s + timeouts_before svc address (lookups s) i) 0 1)"
proof -
  from assms have "Sleep t \<in> set (concat (map (attempt_events svc rnd address s)
      [0..<attempts_made svc address (lookups s)]))"
    unfolding geocode_address_closed_form[of svc rnd address s] by simp
  then obtain i where i: "Sleep t \<in> set (attempt_events svc rnd address s i)" by auto
  show ?thesis
  proof (cases "t = 1")
    case True
    then show ?thesis by simp
  next
    case False
    with i have "svc (lookups s + i) address = TimedOut" "i < 2"
      "t = 2 ^ i + rnd (draws s + timeouts_before svc address (lookups s) i) 0 1"
      by (auto simp: attempt_events_def split: if_splits)
    then show ?thesis by blast
  qed
qed

lemma backoff_bounds:
  assumes "draws_within rnd"
    and "Sleep t \<in> set (drop (length (trace s)) (trace (snd (geocode_address svc rnd address s))))"
  shows "t = 1 \<or> (\<exists>i<2. svc (lookups s + i) address = TimedOut \<and> 2 ^ i \<le> t \<and> t \<le> 2 ^ i + 1)"
proof -
  from assms(1) have b: "\<And>n. 0 \<le> rnd n 0 1 \<and> rnd n 0 1 \<le> 1"
    unfolding draws_within_def by simp
  from backoff_is_draw[OF assms(2)] show ?thesis
  proof
    assume "t = 1"
    then show ?thesis by simp
  next
    assume "\<exists>i<2. svc (lookups s + i) address = TimedOut \<and>
           t = 2 ^ i + rnd (draws s + timeouts_before svc address (lookups s) i) 0 1"
    then obtain i where i: "i < 2" "svc (lookups s + i) address = TimedOut"
      "t = 2 ^ i + rnd (draws s + timeouts_before svc address (lookups s) i) 0 1" by blast
    from b[of "draws s + timeouts_before svc address (lookups s) i"] i(3)
    have "2 ^ i \<le> t \<and> t \<le> 2 ^ i + 1" by simp
    with i(1,2) show ?thesis by blast
  qed
qed

lemma backoff_strict_bounds:
  assumes b: "\<forall>n. 0 < rnd n 0 1 \<and> rnd n 0 1 < 1"
    and "Sleep t \<in> set (drop (length (trace s)) (trace (snd (geocode_address svc rnd address s))))"
  shows "t = 1 \<or> (\<exists>i<2. svc (lookups s + i) address = TimedOut \<and> 2 ^ i < t \<and> t < 2 ^ i + 1)"
proof -
  from backoff_is_draw[OF assms(2)] show ?thesis
  proof
    assume "t = 1"
    then show ?thesis by simp
  next
    assume "\<exists>i<2. svc (lookups s + i) address = TimedOut \<and>
           t = 2 ^ i + rnd (draws s + timeouts_before svc address (lookups s) i) 0 1"
    then obtain i where i: "i < 2" "svc (lookups s + i) address = TimedOut"
      "t = 2 ^ i + rnd (draws s + timeouts_before svc address (lookups s) i) 0 1" by blast
    from b[rule_format, of "draws s + timeouts_before svc address (lookups s) i"] i(3)
    have "2 ^ i < t \<and> t < 2 ^ i + 1" by simp
    with i(1,2) show ?thesis by blast
  qed
qed

lemma half_jitter_within: "draws_within half_jitter"
  by (simp add: draws_within_def half_jitter_def)

text \<open>
  C6. When every lookup times out, \<open>geocode_address\<close> makes exactly three lookups and
  returns \<open>None\<close>. When a lookup succeeds at attempt \<open>j\<close> (from 0) after attempts that timed
  out or found nothing, exactly \<open>j + 1\<close> lookups are made: two when the second attempt
  succeeds. For every sequence of responses the events of the call are those of its
  attempts in order: each attempt sleeps one second and looks the address up, and an
  attempt of index \<open>i\<close> that times out and is not the last then sleeps \<open>2 ^ i\<close> plus the
  value that \<open>random.uniform(0, 1)\<close> draws. Every sleep of the call is the fixed second
  or such a backoff for a timed-out attempt \<open>i < 2\<close>: between \<open>2 ^ i\<close> and \<open>2 ^ i + 1\<close> with
  a generator that keeps its bounds, strictly between them with one whose draws on
  \<open>(0, 1)\<close> are strictly inside.
\<close>

theorem geocode_address_backoff:
  "((\<forall>k<3. svc (lookups s + k) address = TimedOut) \<longrightarrow>
      geocode_address svc rnd address s =
        (None, s\<lparr>lookups := lookups s + 3, draws := draws s + 2,
           trace := trace s @
             [Sleep 1, Lookup address, Sleep (2 ^ 0 + rnd (draws s) 0 1),
              Sleep 1, Lookup address, Sleep (2 ^ 1 + rnd (draws s + 1) 0 1),
              Sleep 1, Lookup address]\<rparr>)) \<and>
   (svc (lookups s) address = TimedOut \<and> svc (lookups s + 1) address = Found c \<longrightarrow>
      geocode_address svc rnd address s =
        (Some \<lparr>location = address, stopover = True, coords = c\<rparr>,
         s\<lparr>lookups := lookups s + 2, draws := draws s + 1,
           trace := trace s @
             [Sleep 1, Lookup address, Sleep (2 ^ 0 + rnd (draws s) 0 1),
              Sleep 1, Lookup address]\<rparr>)) \<and>
   (svc (lookups s) address = NotFound \<and> svc (lookups s + 1) address = TimedOut \<and>
    svc (lookups s + 2) address = Found c \<longrightarrow>
      geocode_address svc rnd address s =
        (Some \<lparr>location = address, stopover = True, coords = c\<rparr>,
         s\<lparr>lookups := lookups s + 3, draws := draws s + 1,
           trace := trace s @
             [Sleep 1, Lookup address,
              Sleep 1, Lookup address, Sleep (2 ^ 1 + rnd (draws s) 0 1),
              Sleep 1, Lookup address]\<rparr>)) \<and>
   (\<forall>j<3. (\<forall>i<j. retried (svc (lookups s + i) address)) \<and>
           svc (lookups s + j) address = Found c \<longrightarrow>
      geocode_address svc rnd address s =
        (Some \<lparr>location = address, stopover = True, coords = c\<rparr>,
         s\<lparr>lookups := lookups s + j + 1,
           draws := draws s + timeouts_before svc address (lookups s) j,
           trace := trace s @ concat (map (attempt_events svc rnd address s) [0..<j]) @
                    [Sleep 1, Lookup address]\<rparr>)) \<and>
   geocode_address svc rnd address s =
     (case svc (lookups s + attempts_made svc address (lookups s) - 1) address of
        Found c \<Rightarrow> Some \<lparr>location = address, stopover = True, coords = c\<rparr>
      | _ \<Rightarrow> None,
      s\<lparr>lookups := lookups s + attempts_made svc address (lookups s),
        draws := draws s +
          timeouts_before svc address (lookups s) (min (attempts_made svc address (lookups s)) 2),
        trace := trace s @
          concat (map (attempt_events svc rnd address s)
                    [0..<attempts_made svc address (lookups s)])\<rparr>) \<and>
   (draws_within rnd \<longrightarrow>
      (\<forall>t. Sleep t \<in> set (drop (length (trace s))
                             (trace (snd (geocode_address svc rnd address s)))) \<longrightarrow>
           t = 1 \<or> (\<exists>i<2. svc (lookups s + i) address = TimedOut \<and>
                           2 ^ i \<le> t \<and> t \<le> 2 ^ i + 1))) \<and>
   (\<forall>t. Sleep t \<in> set (drop (length (trace s))
                          (trace (snd (geocode_address svc rnd address s)))) \<longrightarrow>
        t = 1 \<or> (\<exists>i<2. svc (lookups s + i) address = TimedOut \<and>
           t = 2 ^ i + rnd (draws s + timeouts_before svc address (lookups s) i) 0 1)) \<and>
   ((\<forall>n. 0 < rnd n 0 1 \<and> rnd n 0 1 < 1) \<longrightarrow>
      (\<forall>t. Sleep t \<in> set (drop (length (trace s))
                             (trace (snd (geocode_address svc rnd address s)))) \<longrightarrow>
           t = 1 \<or> (\<exists>i<2. svc (lookups s + i) address = TimedOut \<and>
                           2 ^ i < t \<and> t < 2 ^ i + 1)))"
proof (intro conjI impI allI)
  assume "\<forall>k<3. svc (lookups s + k) address = TimedOut"
  from three_calls[of "\<lambda>n. svc n address = TimedOut", OF this]
  show "geocode_address svc rnd address s =
        (None, s\<lparr>lookups := lookups s + 3, draws := draws s + 2,
           trace := trace s @
             [Sleep 1, Lookup address, Sleep (2 ^ 0 + rnd (draws s) 0 1),
              Sleep 1, Lookup address, Sleep (2 ^ 1 + rnd (draws s + 1) 0 1),
              Sleep 1, Lookup address]\<rparr>)"
    by (simp add: effect_defs)
next
  assume "svc (lookups s) address = TimedOut \<and> svc (lookups s + 1) address = Found c"
  then show "geocode_address svc rnd address s =
        (Some \<lparr>location = address, stopover = True, coords = c\<rparr>,
         s\<lparr>lookups := lookups s + 2, draws := draws s + 1,
           trace := trace s @
             [Sleep 1, Lookup address, Sleep (2 ^ 0 + rnd (draws s) 0 1),
              Sleep 1, Lookup address]\<rparr>)"
    by (simp add: effect_defs)
next
  assume "svc (lookups s) address = NotFound \<and> svc (lookups s + 1) address = TimedOut \<and>
    svc (lookups s + 2) address = Found c"
  then show "geocode_address svc rnd address s =
        (Some \<lparr>location = address, stopover = True, coords = c\<rparr>,
         s\<lparr>lookups := lookups s + 3, draws := draws s + 1,
           trace := trace s @
             [Sleep 1, Lookup address,
              Sleep 1, Lookup address, Sleep (2 ^ 1 + rnd (draws s) 0 1),
              Sleep 1, Lookup address]\<rparr>)"
    by (simp add: effect_defs numeral_2_eq_2)
next
  fix j
  assume j: "j < 3"
    and h: "(\<forall>i<j. retried (svc (lookups s + i) address)) \<and> svc (lookups s + j) address = Found c"
  then have nr: "\<not> retried (svc (lookups s + j) address)" by (simp add: retried_def)
  from ends_at[where svc = svc and s = s and address = address and j = j and rnd = rnd,
      OF j h[THEN conjunct1] nr] h
  show "geocode_address svc rnd address s =
        (Some \<lparr>location = address, stopover = True, coords = c\<rparr>,
         s\<lparr>lookups := lookups s + j + 1,
           draws := draws s + timeouts_before svc address (lookups s) j,
           trace := trace s @ concat (map (attempt_events svc rnd address s) [0..<j]) @
                    [Sleep 1, Lookup address]\<rparr>)"
    by simp
next
  show "geocode_address svc rnd address s =
     (case svc (lookups s + attempts_made svc address (lookups s) - 1) address of
        Found c \<Rightarrow> Some \<lparr>location = address, stopover = True, coords = c\<rparr>
      | _ \<Rightarrow> None,
      s\<lparr>lookups := lookups s + attempts_made svc address (lookups s),
        draws := draws s +
          timeouts_before svc address (lookups s) (min (attempts_made svc address (lookups s)) 2),
        trace := trace s @
          concat (map (attempt_events svc rnd address s)
                    [0..<attempts_made svc address (lookups s)])\<rparr>)"
    by (rule geocode_address_closed_form)
next
  fix t
  assume "draws_within rnd"
    and "Sleep t \<in> set (drop (length (trace s)) (trace (snd (geocode_address svc rnd address s))))"
  then show "t = 1 \<or> (\<exists>i<2. svc (lookups s + i) address = TimedOut \<and>
                           2 ^ i \<le> t \<and> t \<le> 2 ^ i + 1)"
    by (rule backoff_bounds)
next
  fix t
  assume "Sleep t \<in> set (drop (length (trace s)) (trace (snd (geocode_address svc rnd address s))))"
  then show "t = 1 \<or> (\<exists>i<2. svc (lookups s + i) address = TimedOut \<and>
           t = 2 ^ i + rnd (draws s + timeouts_before svc address (lookups s) i) 0 1)"
    by (rule backoff_is_draw)
next
  fix t
  assume "\<forall>n. 0 < rnd n 0 1 \<and> rnd n 0 1 < 1"
    and "Sleep t \<in> set (drop (length (trace s)) (trace (snd (geocode_address svc rnd address s))))"
  then show "t = 1 \<or> (\<exists>i<2. svc (lookups s + i) address = TimedOut \<and>
                           2 ^ i < t \<and> t < 2 ^ i + 1)"
    by (rule backoff_strict_bounds)
qed

theorem geocode_address_backoff_witness:
  "geocode_address always_timeout half_jitter ''A'' start =
     (None, \<lparr>lookups = 3, draws = 2, global_rng = 0,
        trace = [Sleep 1, Lookup ''A'', Sleep (3 / 2), Sleep 1, Lookup ''A'', Sleep (5 / 2),
                 Sleep 1, Lookup ''A'']\<rparr>) \<and>
   geocode_address second_try half_jitter ''A'' start =
     (Some \<lparr>location = ''A'', stopover = True, coords = (53, -113)\<rparr>,
      \<lparr>lookups = 2, draws = 1, global_rng = 0,
        trace = [Sleep 1, Lookup ''A'', Sleep (3 / 2), Sleep 1, Lookup ''A'']\<rparr>) \<and>
   geocode_address found_second half_jitter ''A'' start =
     (Some \<lparr>location = ''A'', stopover = True, coords = (53, -113)\<rparr>,
      \<lparr>lookups = 2, draws = 0, global_rng = 0,
        trace = [Sleep 1, Lookup ''A'', Sleep 1, Lookup ''A'']\<rparr>) \<and>
   draws_within half_jitter \<and>
   Sleep (5 / 2) \<in> set (trace (snd (geocode_address always_timeout half_jitter ''A'' start))) \<and>
   (\<exists>i<2. always_timeout (lookups start + i) ''A'' = TimedOut \<and>
          2 ^ i \<le> (5 / 2 :: real) \<and> (5 / 2 :: real) \<le> 2 ^ i + 1) \<and>
   (\<exists>i<2. always_timeout (lookups start + i) ''A'' = TimedOut \<and>
          2 ^ i < (5 / 2 :: real) \<and> (5 / 2 :: real) < 2 ^ i + 1)"
proof -
  note inst = geocode_address_backoff[where s = start and address = "''A''" and rnd = half_jitter]
  have h1: "\<forall>k<3. always_timeout (lookups start + k) ''A'' = TimedOut"
    by (simp add: always_timeout_def)
  have h2: "second_try (lookups start) ''A'' = TimedOut \<and>
            second_try (lookups start + 1) ''A'' = Found (53, -113)"
    by (simp add: second_try_def start_def)
  have h4: "(\<forall>i<1. retried (found_second (lookups start + i) ''A'')) \<and>
      found_second (lookups start + 1) ''A'' = Found (53, -113)"
    by (simp add: found_second_def retried_def start_def)
  have a: "geocode_address always_timeout half_jitter ''A'' start =
     (None, \<lparr>lookups = 3, draws = 2, global_rng = 0,
        trace = [Sleep 1, Lookup ''A'', Sleep (3 / 2), Sleep 1, Lookup ''A'', Sleep (5 / 2),
                 Sleep 1, Lookup ''A'']\<rparr>)"
    using inst[where svc = always_timeout, THEN conjunct1, THEN mp, OF h1]
    by (simp add: start_def half_jitter_def)
  have b: "geocode_address second_try half_jitter ''A'' start =
     (Some \<lparr>location = ''A'', stopover = True, coords = (53, -113)\<rparr>,
      \<lparr>lookups = 2, draws = 1, global_rng = 0,
        trace = [Sleep 1, Lookup ''A'', Sleep (3 / 2), Sleep 1, Lookup ''A'']\<rparr>)"
    using inst[where svc = second_try and c = "(53, -113)", THEN conjunct2, THEN conjunct1,
        THEN mp, OF h2]
    by (simp add: start_def half_jitter_def)
  have c: "geocode_address found_second half_jitter ''A'' start =
     (Some \<lparr>location = ''A'', stopover = True, coords = (53, -113)\<rparr>,
      \<lparr>lookups = 2, draws = 0, global_rng = 0,
        trace = [Sleep 1, Lookup ''A'', Sleep 1, Lookup ''A'']\<rparr>)"
    using inst[where svc = found_second and c = "(53, -113)", THEN conjunct2, THEN conjunct2,
        THEN conjunct2, THEN conjunct1, THEN spec, of 1, THEN mp, THEN mp, OF _ h4]
    by (simp add: start_def timeouts_before_def attempt_events_def found_second_def
          small_ranges)
  have m: "Sleep (5 / 2) \<in> set (trace (snd (geocode_address always_timeout half_jitter ''A'' start)))"
    unfolding a by simp
  then have m': "Sleep (5 / 2) \<in> set (drop (length (trace start))
      (trace (snd (geocode_address always_timeout half_jitter ''A'' start))))"
    by (simp add: start_def)
  have "(5 / 2 :: real) = 1 \<or> (\<exists>i<2. always_timeout (lookups start + i) ''A'' = TimedOut \<and>
          2 ^ i \<le> (5 / 2 :: real) \<and> (5 / 2 :: real) \<le> 2 ^ i + 1)"
    using inst[where svc = always_timeout, THEN conjunct2, THEN conjunct2, THEN conjunct2,
        THEN conjunct2, THEN conjunct2, THEN conjunct1, THEN mp, OF half_jitter_within,
        THEN spec, of "5 / 2", THEN mp, OF m'] .
  then have d: "\<exists>i<2. always_timeout (lookups start + i) ''A'' = TimedOut \<and>
          2 ^ i \<le> (5 / 2 :: real) \<and> (5 / 2 :: real) \<le> 2 ^ i + 1"
    by simp
  have strict: "\<forall>n. 0 < half_jitter n 0 1 \<and> half_jitter n 0 1 < 1"
    by (simp add: half_jitter_def)
  have "(5 / 2 :: real) = 1 \<or> (\<exists>i<2. always_timeout (lookups start + i) ''A'' = TimedOut \<and>
          2 ^ i < (5 / 2 :: real) \<and> (5 / 2 :: real) < 2 ^ i + 1)"
    using inst[where svc = always_timeout, THEN conjunct2, THEN conjunct2, THEN conjunct2,
        THEN conjunct2, THEN conjunct2, THEN conjunct2, THEN conjunct2, THEN mp, OF strict,
        THEN spec, of "5 / 2", THEN mp, OF m'] .
  then have e: "\<exists>i<2. always_timeout (lookups start + i) ''A'' = TimedOut \<and>
          2 ^ i < (5 / 2 :: real) \<and> (5 / 2 :: real) < 2 ^ i + 1"
    by simp
  from a b c half_jitter_within m d e show ?thesis by (intro conjI)
qed

lemma lookups_bounds:
  "lookups s < lookups (snd (geocode_address svc rnd address s)) \<and>
   lookups (snd (geocode_address svc rnd address s)) \<le> lookups s + 3"
  by (cases "svc (lookups s) address"; cases "svc (Suc (lookups s)) address";
      cases "svc (Suc (Suc (lookups s))) address")
     (simp_all add: effect_defs)

text \<open>
  C3, as the claim states it, fails: a lookup that returns \<open>None\<close> (not found) does not
  end the call. With a service that never finds the address, \<open>geocode_address\<close> makes
  three lookups before it returns \<open>None\<close>.
\<close>

theorem not_found_is_retried:
  "never_found (lookups start) ''A'' = NotFound \<and>
   geocode_address never_found half_jitter ''A'' start =
     (None, \<lparr>lookups = 3, draws = 0, global_rng = 0,
        trace = [Sleep 1, Lookup ''A'', Sleep 1, Lookup ''A'', Sleep 1, Lookup ''A'']\<rparr>)"
  by (simp add: effect_defs never_found_def start_def)

text \<open>
  C3, amended. A lookup that raises an exception other than a timeout ends the call at
  once with \<open>None\<close>: at whichever attempt \<open>j\<close> it happens, after attempts that timed out
  or found nothing, the failing lookup is the last event and \<open>j + 1\<close> lookups were made.
  A lookup that returns \<open>None\<close> at an attempt that is not the last is followed by the
  next attempt after the fixed one-second sleep alone, with no backoff; a location found
  by that next attempt is returned. Three empty results cost three lookups. In every
  case the call returns after at least one and at most three lookups; its result is a
  point or \<open>None\<close>, never an exception.
\<close>

theorem geocode_address_failure:
  "(svc (lookups s) address = Failed \<longrightarrow>
      geocode_address svc rnd address s =
        (None, s\<lparr>lookups := lookups s + 1, trace := trace s @ [Sleep 1, Lookup address]\<rparr>)) \<and>
   (svc (lookups s) address = NotFound \<and> svc (lookups s + 1) address = Failed \<longrightarrow>
      geocode_address svc rnd address s =
        (None, s\<lparr>lookups := lookups s + 2,
           trace := trace s @ [Sleep 1, Lookup address, Sleep 1, Lookup address]\<rparr>)) \<and>
   ((\<forall>k<3. svc (lookups s + k) address = NotFound) \<longrightarrow>
      geocode_address svc rnd address s =
        (None, s\<lparr>lookups := lookups s + 3,
           trace := trace s @ [Sleep 1, Lookup address, Sleep 1, Lookup address,
                              Sleep 1, Lookup address]\<rparr>)) \<and>
   lookups s < lookups (snd (geocode_address svc rnd address s)) \<and>
   lookups (snd (geocode_address svc rnd address s)) \<le> lookups s + 3 \<and>
   (\<forall>j<3. (\<forall>i<j. retried (svc (lookups s + i) address)) \<and>
           svc (lookups s + j) address = Failed \<longrightarrow>
      geocode_address svc rnd address s =
        (None,
         s\<lparr>lookups := lookups s + j + 1,
           draws := draws s + timeouts_before svc address (lookups s) j,
           trace := trace s @ concat (map (attempt_events svc rnd address s) [0..<j]) @
                    [Sleep 1, Lookup address]\<rparr>)) \<and>
   (\<forall>j<2. (\<forall>i<j. retried (svc (lookups s + i) address)) \<and>
           svc (lookups s + j) address = NotFound \<longrightarrow>
      lookups s + j + 2 \<le> lookups (snd (geocode_address svc rnd address s)) \<and>
      (\<exists>rest. trace (snd (geocode_address svc rnd address s)) =
         trace s @ concat (map (attempt_events svc rnd address s) [0..<j]) @
         [Sleep 1, Lookup address, Sleep 1, Lookup address] @ rest)) \<and>
   (\<forall>j<2. (\<forall>i<j. retried (svc (lookups s + i) address)) \<and>
           svc (lookups s + j) address = NotFound \<and>
           svc (lookups s + j + 1) address = Found c \<longrightarrow>
      fst (geocode_address svc rnd address s) =
        Some \<lparr>location = address, stopover = True, coords = c\<rparr> \<and>
      lookups (snd (geocode_address svc rnd address s)) = lookups s + j + 2)"
proof (intro conjI impI allI)
  assume "svc (lookups s) address = Failed"
  then show "geocode_address svc rnd address s =
        (None, s\<lparr>lookups := lookups s + 1, trace := trace s @ [Sleep 1, Lookup address]\<rparr>)"
    by (simp add: effect_defs)
next
  assume "svc (lookups s) address = NotFound \<and> svc (lookups s + 1) address = Failed"
  then show "geocode_address svc rnd address s =
        (None, s\<lparr>lookups := lookups s + 2,
           trace := trace s @ [Sleep 1, Lookup address, Sleep 1, Lookup address]\<rparr>)"
    by (simp add: effect_defs)
next
  assume "\<forall>k<3. svc (lookups s + k) address = NotFound"
  from three_calls[of "\<lambda>n. svc n address = NotFound", OF this]
  show "geocode_address svc rnd address s =
        (None, s\<lparr>lookups := lookups s + 3,
           trace := trace s @ [Sleep 1, Lookup address, Sleep 1, Lookup address,
                              Sleep 1, Lookup address]\<rparr>)"
    by (simp add: effect_defs)
next
  show "lookups s < lookups (snd (geocode_address svc rnd address s))"
    by (rule lookups_bounds[THEN conjunct1])
  show "lookups (snd (geocode_address svc rnd address s)) \<le> lookups s + 3"
    by (rule lookups_bounds[THEN conjunct2])
next
  fix j
  assume j: "j < 3"
    and h: "(\<forall>i<j. retried (svc (lookups s + i) address)) \<and> svc (lookups s + j) address = Failed"
  then have "\<not> retried (svc (lookups s + j) address)" by (simp add: retried_def)
  with j h have "geocode_address svc rnd address s =
     (case svc (lookups s + j) address of
        Found c \<Rightarrow> Some \<lparr>location = address, stopover = True, coords = c\<rparr>
      | _ \<Rightarrow> None,
      s\<lparr>lookups := lookups s + j + 1,
        draws := draws s + timeouts_before svc address (lookups s) j,
        trace := trace s @ concat (map (attempt_events svc rnd address s) [0..<j]) @
                 [Sleep 1, Lookup address]\<rparr>)"
    by (intro ends_at) simp_all
  with h show "geocode_address svc rnd address s =
        (None,
         s\<lparr>lookups := lookups s + j + 1,
           draws := draws s + timeouts_before svc address (lookups s) j,
           trace := trace s @ concat (map (attempt_events svc rnd address s) [0..<j]) @
                    [Sleep 1, Lookup address]\<rparr>)"
    by simp
next
  fix j
  assume j: "j < 2"
    and h: "(\<forall>i<j. retried (svc (lookups s + i) address)) \<and> svc (lookups s + j) address = NotFound"
  from goes_on[where svc = svc and s = s and address = address and j = j and rnd = rnd,
      OF j h[THEN conjunct1] h[THEN conjunct2]]
  show "lookups s + j + 2 \<le> lookups (snd (geocode_address svc rnd address s))"
    and "\<exists>rest. trace (snd (geocode_address svc rnd address s)) =
         trace s @ concat (map (attempt_events svc rnd address s) [0..<j]) @
         [Sleep 1, Lookup address, Sleep 1, Lookup address] @ rest"
    by blast+
next
  fix j
  assume j: "j < 2"
    and h: "(\<forall>i<j. retried (svc (lookups s + i) address)) \<and>
           svc (lookups s + j) address = NotFound \<and>
           svc (lookups s + j + 1) address = Found c"
  have pre: "\<forall>i<j + 1. retried (svc (lookups s + i) address)"
  proof (intro allI impI)
    fix i assume "i < j + 1"
    then have "i < j \<or> i = j" by arith
    with h show "retried (svc (lookups s + i) address)" by (auto simp: retried_def)
  qed
  from h have nr: "\<not> retried (svc (lookups s + (j + 1)) address)"
    by (simp add: retried_def add.assoc)
  from j have "j + 1 < 3" by simp
  from ends_at[where svc = svc and s = s and address = address and j = "j + 1" and rnd = rnd,
      OF this pre nr] h
  show "fst (geocode_address svc rnd address s) =
        Some \<lparr>location = address, stopover = True, coords = c\<rparr>"
    and "lookups (snd (geocode_address svc rnd address s)) = lookups s + j + 2"
    by (simp_all add: add.assoc)
qed

theorem geocode_address_failure_witness:
  "geocode_address fails_once half_jitter ''A'' start =
     (None, \<lparr>lookups = 1, draws = 0, global_rng = 0, trace = [Sleep 1, Lookup ''A'']\<rparr>) \<and>
   geocode_address never_found half_jitter ''A'' start =
     (None, \<lparr>lookups = 3, draws = 0, global_rng = 0,
        trace = [Sleep 1, Lookup ''A'', Sleep 1, Lookup ''A'', Sleep 1, Lookup ''A'']\<rparr>) \<and>
   geocode_address fails_after_timeout half_jitter ''A'' start =
     (None, \<lparr>lookups = 2, draws = 1, global_rng = 0,
        trace = [Sleep 1, Lookup ''A'', Sleep (3 / 2), Sleep 1, Lookup ''A'']\<rparr>) \<and>
   fst (geocode_address found_second half_jitter ''A'' start) =
     Some \<lparr>location = ''A'', stopover = True, coords = (53, -113)\<rparr> \<and>
   lookups (snd (geocode_address found_second half_jitter ''A'' start)) = 2"
proof -
  note inst = geocode_address_failure[where s = start and address = "''A''" and rnd = half_jitter]
  have h1: "fails_once (lookups start) ''A'' = Failed"
    by (simp add: fails_once_def start_def)
  have h3: "\<forall>k<3. never_found (lookups start + k) ''A'' = NotFound"
    by (simp add: never_found_def)
  have h6: "(\<forall>i<1. retried (fails_after_timeout (lookups start + i) ''A'')) \<and>
      fails_after_timeout (lookups start + 1) ''A'' = Failed"
    by (simp add: fails_after_timeout_def retried_def start_def)
  have h8: "(\<forall>i<0. retried (found_second (lookups start + i) ''A'')) \<and>
      found_second (lookups start + 0) ''A'' = NotFound \<and>
      found_second (lookups start + 0 + 1) ''A'' = Found (53, -113)"
    by (simp add: found_second_def start_def)
  have a: "geocode_address fails_once half_jitter ''A'' start =
     (None, \<lparr>lookups = 1, draws = 0, global_rng = 0, trace = [Sleep 1, Lookup ''A'']\<rparr>)"
    using inst[where svc = fails_once, THEN conjunct1, THEN mp, OF h1] by (simp add: start_def)
  have b: "geocode_address never_found half_jitter ''A'' start =
     (None, \<lparr>lookups = 3, draws = 0, global_rng = 0,
        trace = [Sleep 1, Lookup ''A'', Sleep 1, Lookup ''A'', Sleep 1, Lookup ''A'']\<rparr>)"
    using inst[where svc = never_found, THEN conjunct2, THEN conjunct2, THEN conjunct1,
        THEN mp, OF h3] by (simp add: start_def)
  have c: "geocode_address fails_after_timeout half_jitter ''A'' start =
     (None, \<lparr>lookups = 2, draws = 1, global_rng = 0,
        trace = [Sleep 1, Lookup ''A'', Sleep (3 / 2), Sleep 1, Lookup ''A'']\<rparr>)"
    using inst[where svc = fails_after_timeout, THEN conjunct2, THEN conjunct2, THEN conjunct2,
        THEN conjunct2, THEN conjunct2, THEN conjunct1, THEN spec, of 1, THEN mp, THEN mp, OF _ h6]
    by (simp add: start_def timeouts_before_def attempt_events_def fails_after_timeout_def
          half_jitter_def small_ranges)
  have d: "fst (geocode_address found_second half_jitter ''A'' start) =
     Some \<lparr>location = ''A'', stopover = True, coords = (53, -113)\<rparr> \<and>
   lookups (snd (geocode_address found_second half_jitter ''A'' start)) = 2"
    using inst[where svc = found_second and c = "(53, -113)", THEN conjunct2, THEN conjunct2,
        THEN conjunct2, THEN conjunct2, THEN conjunct2, THEN conjunct2, THEN conjunct2,
        THEN spec, of 0, THEN mp, THEN mp, OF _ h8]
    by (simp add: start_def)
  from a b c d show ?thesis by (intro conjI) simp_all
qed

section \<open>What the geocoding loop leaves behind\<close>

lemma attempts_Some:
  "attempts svc rnd address retries idxs s = (Some p, s') \<Longrightarrow> location p = address \<and> stopover p"
  by (induction idxs arbitrary: s)
     (auto simp: geocode_def uniform_def Let_def split: response.splits if_splits)

lemma geocode_address_Some:
  "geocode_address svc rnd address s = (Some p, s') \<Longrightarrow> location p = address \<and> stopover p"
  unfolding geocode_address_def Let_def by (rule attempts_Some)

lemma attempts_quiet:
  assumes "\<And>t. \<not> P (Sleep t)" "\<And>a. \<not> P (Lookup a)"
  shows "filter P (trace (snd (attempts svc rnd address retries idxs s))) = filter P (trace s)"
  using assms
  by (induction idxs arbitrary: s)
     (auto simp: geocode_def uniform_def sleep_def Let_def split: response.splits if_splits)

lemma geocode_address_quiet:
  assumes "\<And>t. \<not> P (Sleep t)" "\<And>a. \<not> P (Lookup a)"
  shows "filter P (trace (snd (geocode_address svc rnd address s))) = filter P (trace s)"
  unfolding geocode_address_def Let_def by (rule attempts_quiet[OF assms])

lemma geocode_all_quiet:
  assumes "\<And>t. \<not> P (Sleep t)" "\<And>a. \<not> P (Lookup a)"
  shows "filter P (trace (snd (geocode_all svc rnd addrs ld s))) = filter P (trace s)"
proof (induction addrs arbitrary: ld s)
  case Nil
  then show ?case by simp
next
  case (Cons a addrs)
  obtain r s1 where g: "geocode_address svc rnd a s = (r, s1)" by (cases "geocode_address svc rnd a s")
  have "filter P (trace s1) = filter P (trace s)"
    using attempts_quiet[OF assms, of svc rnd a 3 "[0..<3]" s] g
    by (simp add: geocode_address_def)
  then show ?case using g Cons.IH by (cases r) simp_all
qed

lemma geocode_all_acc:
  "geocode_all svc rnd addrs ld s = (ld', s') \<Longrightarrow>
   \<exists>new. ld' = ld @ new \<and> subseq (map location new) addrs \<and> (\<forall>p\<in>set new. stopover p)
      \<and> length new \<le> length addrs"
proof (induction addrs arbitrary: ld s)
  case Nil
  then show ?case by simp
next
  case (Cons a addrs)
  obtain r s1 where g: "geocode_address svc rnd a s = (r, s1)" by (cases "geocode_address svc rnd a s")
  show ?case
  proof (cases r)
    case None
    with g Cons.prems have "geocode_all svc rnd addrs ld s1 = (ld', s')" by simp
    from Cons.IH[OF this] show ?thesis by auto
  next
    case (Some p)
    with g Cons.prems have "geocode_all svc rnd addrs (ld @ [p]) s1 = (ld', s')" by simp
    from Cons.IH[OF this] obtain new where n: "ld' = (ld @ [p]) @ new" "subseq (map location new) addrs"
      "\<forall>p\<in>set new. stopover p" "length new \<le> length addrs" by blast
    from g Some have "location p = a \<and> stopover p" by (simp add: geocode_address_Some)
    with n show ?thesis by (intro exI[of _ "p # new"]) auto
  qed
qed

lemma geocode_all_lookups:
  "lookups s + length addrs \<le> lookups (snd (geocode_all svc rnd addrs ld s))"
proof (induction addrs arbitrary: ld s)
  case Nil
  then show ?case by simp
next
  case (Cons a addrs)
  obtain r s1 where g: "geocode_address svc rnd a s = (r, s1)"
    by (cases "geocode_address svc rnd a s")
  with lookups_bounds[of s svc rnd a] have "lookups s < lookups s1" by simp
  moreover have "lookups s1 + length addrs \<le> lookups (snd (geocode_all svc rnd (a # addrs) ld s))"
    using g Cons.IH by (cases r) simp_all
  ultimately show ?case by simp
qed

lemma geocode_all_each:
  "fst (geocode_all svc rnd addrs ld s) = ld @ successes (geocode_each svc rnd addrs s)"
proof (induction addrs arbitrary: ld s)
  case Nil
  then show ?case by (simp add: successes_def)
next
  case (Cons a addrs)
  obtain r s1 where g: "geocode_address svc rnd a s = (r, s1)"
    by (cases "geocode_address svc rnd a s")
  then show ?case using Cons.IH by (cases r) (simp_all add: successes_def)
qed

lemma length_geocode_each: "length (geocode_each svc rnd addrs s) = length addrs"
  by (induction addrs arbitrary: s) (auto split: prod.splits)

lemma all_found_each:
  assumes "\<forall>n a. \<exists>c. svc n a = Found c"
  shows "map location (successes (geocode_each svc rnd addrs s)) = addrs"
proof (induction addrs arbitrary: s)
  case Nil
  then show ?case by (simp add: successes_def)
next
  case (Cons a addrs)
  from assms obtain c where c: "svc (lookups s) a = Found c" by blast
  then have "fst (geocode_address svc rnd a s) = Some \<lparr>location = a, stopover = True, coords = c\<rparr>"
    by (simp add: effect_defs)
  then obtain s1 where "geocode_address svc rnd a s =
      (Some \<lparr>location = a, stopover = True, coords = c\<rparr>, s1)"
    by (cases "geocode_address svc rnd a s") simp
  then show ?case using Cons.IH[of s1] by (simp add: successes_def)
qed

section \<open>Driver identifiers\<close>








lemma driver_ids: "driver_id_of 0 = ''driver_1''" "driver_id_of 1 = ''driver_2''"
  "driver_id_of 2 = ''driver_3''"
  by (simp_all add: driver_id_of_def str_int_def str_nat.simps digit_char_def char_of_eq_iff)

section \<open>The regrouping loop\<close>

lemma update_as_aux:
  "AList.update_with_aux v k f ps =
     AList.update k (f (case map_of ps k of None \<Rightarrow> v | Some x \<Rightarrow> x)) ps"
  by (induction ps) auto

lemma add_waypoint_eq:
  assumes "i < length ld"
  shows "add_waypoint ld i c dr =
     Inr (AList.update_with_aux \<lparr>waypoints = []\<rparr> (driver_id_of c)
            (\<lambda>r. r\<lparr>waypoints := waypoints r @ [waypoint_of (ld ! i)]\<rparr>) dr)"
proof (cases "map_of dr (driver_id_of c)")
  case None
  then show ?thesis using assms
    by (simp add: add_waypoint_def Let_def update_as_aux AList.update_conv' waypoint_of_def)
next
  case (Some r)
  then show ?thesis using assms
    by (simp add: add_waypoint_def Let_def update_as_aux waypoint_of_def)
qed

lemma add_waypoint_error: "\<not> i < length ld \<Longrightarrow> add_waypoint ld i c dr = Inl IndexError"
  by (simp add: add_waypoint_def Let_def)

lemma regroup_Nil [simp]: "regroup [] dr = dr"
  by (simp add: regroup_def)

lemma regroup_Cons [simp]:
  "regroup ((c, p) # ps) dr = regroup ps (append_to (driver_id_of c) (waypoint_of p) dr)"
  by (simp add: regroup_def)

lemma add_waypoint_append_to:
  "i < length ld \<Longrightarrow>
   add_waypoint ld i c dr = Inr (append_to (driver_id_of c) (waypoint_of (ld ! i)) dr)"
  by (simp add: add_waypoint_eq append_to_def)

lemma keys_append_to: "fst ` set (append_to k w ps) = insert k (fst ` set ps)"
  by (simp add: append_to_def AList.dom_update_with_aux)

lemma distinct_append_to: "distinct (map fst (append_to k w ps)) = distinct (map fst ps)"
  by (simp add: append_to_def)

lemma waypoints_for_append_to:
  "waypoints_for (append_to k w ps) d =
     (if d = k then waypoints_for ps k @ [w] else waypoints_for ps d)"
  by (simp add: append_to_def waypoints_for_def AList.map_of_update_with_aux' split: option.splits)

lemma all_waypoints_append_to:
  "mset (all_waypoints (append_to k w ps)) = mset (all_waypoints ps) + {#w#}"
  by (induction ps) (auto simp: append_to_def all_waypoints_def)

lemma each_route_append_to:
  assumes "\<forall>(d, r)\<in>set ps. Q (waypoints r)" "Q [w]" "\<And>ws. Q ws \<Longrightarrow> Q (ws @ [w])"
  shows "\<forall>(d, r)\<in>set (append_to k w ps). Q (waypoints r)"
  using assms by (induction ps) (auto simp: append_to_def)

lemma organize_regroup:
  "organize ld i cs dr =
     (if cs = [] \<or> i + length cs \<le> length ld then Inr (regroup (zip cs (drop i ld)) dr)
      else Inl IndexError)"
proof (induction cs arbitrary: i dr)
  case Nil
  then show ?case by simp
next
  case (Cons c cs)
  show ?case
  proof (cases "i < length ld")
    case True
    then have d: "drop i ld = ld ! i # drop (Suc i) ld" by (simp add: Cons_nth_drop_Suc)
    show ?thesis
    proof (cases "cs = []")
      case True
      with \<open>i < length ld\<close> d show ?thesis by (simp add: add_waypoint_append_to)
    next
      case False
      with True d Cons.IH show ?thesis by (simp add: add_waypoint_append_to)
    qed
  next
    case False
    then show ?thesis by (simp add: add_waypoint_error)
  qed
qed

lemma keys_regroup: "fst ` set (regroup ps dr) = fst ` set dr \<union> (\<lambda>(c, p). driver_id_of c) ` set ps"
proof (induction ps arbitrary: dr)
  case Nil
  then show ?case by simp
next
  case (Cons x ps)
  obtain c p where x: "x = (c, p)" by (cases x)
  have "fst ` set (regroup (x # ps) dr) =
        insert (driver_id_of c) (fst ` set dr) \<union> (\<lambda>(c, p). driver_id_of c) ` set ps"
    unfolding x regroup_Cons Cons.IH keys_append_to ..
  then show ?case unfolding x by simp
qed

lemma distinct_regroup: "distinct (map fst dr) \<Longrightarrow> distinct (map fst (regroup ps dr))"
proof (induction ps arbitrary: dr)
  case Nil
  then show ?case by simp
next
  case (Cons x ps)
  obtain c p where x: "x = (c, p)" by (cases x)
  from Cons.prems have "distinct (map fst (append_to (driver_id_of c) (waypoint_of p) dr))"
    by (simp only: distinct_append_to)
  then show ?case unfolding x regroup_Cons by (rule Cons.IH)
qed

lemma waypoints_for_regroup:
  "waypoints_for (regroup ps dr) d =
     waypoints_for dr d @ map (\<lambda>(c, p). waypoint_of p) (filter (\<lambda>(c, p). driver_id_of c = d) ps)"
  by (induction ps arbitrary: dr) (auto simp: waypoints_for_append_to)

lemma all_waypoints_regroup:
  "mset (all_waypoints (regroup ps dr)) = mset (all_waypoints dr) + mset (map (\<lambda>(c, p). waypoint_of p) ps)"
  by (induction ps arbitrary: dr) (auto simp: all_waypoints_append_to)

lemma each_route_regroup:
  assumes "\<forall>(d, r)\<in>set dr. Q (waypoints r)"
    and "\<And>w. w \<in> (\<lambda>(c, p). waypoint_of p) ` set ps \<Longrightarrow> Q [w]"
    and "\<And>w ws. w \<in> (\<lambda>(c, p). waypoint_of p) ` set ps \<Longrightarrow> Q ws \<Longrightarrow> Q (ws @ [w])"
  shows "\<forall>(d, r)\<in>set (regroup ps dr). Q (waypoints r)"
  using assms
proof (induction ps arbitrary: dr)
  case Nil
  then show ?case by simp
next
  case (Cons x ps)
  obtain c p where x: "x = (c, p)" by (cases x)
  have "\<forall>(d, r)\<in>set (append_to (driver_id_of c) (waypoint_of p) dr). Q (waypoints r)"
    by (rule each_route_append_to) (use Cons.prems x in auto)
  then show ?case using Cons.IH[of "append_to (driver_id_of c) (waypoint_of p) dr"] Cons.prems x
    by auto
qed

lemma route_in_regroup:
  assumes "(d, r) \<in> set (regroup ps [])"
  shows "waypoints r = map (\<lambda>(c, p). waypoint_of p) (filter (\<lambda>(c, p). driver_id_of c = d) ps)"
proof -
  have "distinct (map fst (regroup ps []))" by (rule distinct_regroup) simp
  with assms have "map_of (regroup ps []) d = Some r" by simp
  then have a: "waypoints_for (regroup ps []) d = waypoints r" by (simp add: waypoints_for_def)
  have b: "waypoints_for [] d = []" by (simp add: waypoints_for_def)
  show ?thesis using waypoints_for_regroup[of ps "[]" d] unfolding a b by simp
qed

lemma zip_same_length:
  "length cs = length ld \<Longrightarrow> map (\<lambda>(c, p). f p) (zip cs ld) = map f ld"
  by (induction cs ld rule: list_induct2) auto

lemma keys_zip:
  "length cs = length ld \<Longrightarrow> (\<lambda>(c, p). g c) ` set (zip cs ld) = g ` set cs"
  by (induction cs ld rule: list_induct2) auto

lemma subseq_zip_snd: "subseq (map (\<lambda>(c, p). f p) (filter Q (zip cs ld))) (map f ld)"
proof -
  have "map (\<lambda>(c, p). f p) (filter Q (zip cs ld)) = map f (map snd (filter Q (zip cs ld)))"
    by (simp add: case_prod_beta comp_def)
  moreover have "subseq (map snd (filter Q (zip cs ld))) (map snd (zip cs ld))"
    by (simp add: subseq_map)
  moreover have "subseq (map snd (zip cs ld)) ld"
    by (simp add: map_snd_zip_take prefix_imp_subseq take_is_prefix)
  ultimately show ?thesis
    by (metis subseq_map subseq_order.order_trans)
qed

lemma same_points:
  assumes "\<forall>p\<in>set xs. stopover p" "\<forall>p\<in>set ys. stopover p"
    and "map location xs = map location ys" "map coords xs = map coords ys"
  shows "xs = (ys :: geocoded_point list)"
proof -
  from assms(3) have "length xs = length ys" by (metis length_map)
  then show ?thesis using assms
  proof (induction xs ys rule: list_induct2)
    case Nil
    then show ?case by simp
  next
    case (Cons x xs y ys)
    then have "x = y" by (cases x; cases y) simp
    with Cons show ?case by simp
  qed
qed

lemma cluster_addresses_unfold:
  assumes "geocode_all svc rnd addresses [] s = (ld, s1)"
  shows "cluster_addresses km svc rnd addresses k s =
     (if int (length ld) < k then (Inl (ValueError (not_enough (length ld) k)), s1)
      else (case km k (Some 42) (global_rng s1) (map coords ld) of
              Inl e \<Rightarrow> Inl e
            | Inr cs \<Rightarrow> organize ld 0 cs [],
            s1\<lparr>trace := trace s1 @ [FitPredict k (Some 42) (map coords ld)]\<rparr>))"
  using assms by (simp add: cluster_addresses_def fit_predict_def Let_def split: sum.splits)

lemma cluster_addresses_Inr:
  assumes run: "cluster_addresses km svc rnd addresses k s = (Inr routes, s')"
    and g: "geocode_all svc rnd addresses [] s = (ld, s1)"
  shows "\<exists>cs. km k (Some 42) (global_rng s1) (map coords ld) = Inr cs \<and> length cs \<le> length ld \<and>
           routes = regroup (zip cs ld) [] \<and> \<not> int (length ld) < k \<and>
           s' = s1\<lparr>trace := trace s1 @ [FitPredict k (Some 42) (map coords ld)]\<rparr>"
proof -
  from run have nlt: "\<not> int (length ld) < k"
    by (auto simp: cluster_addresses_unfold[OF g] split: if_splits)
  with run obtain cs where cs: "km k (Some 42) (global_rng s1) (map coords ld) = Inr cs" "organize ld 0 cs [] = Inr routes"
    and s': "s' = s1\<lparr>trace := trace s1 @ [FitPredict k (Some 42) (map coords ld)]\<rparr>"
    by (auto simp: cluster_addresses_unfold[OF g] split: sum.splits)
  from cs(2) have "length cs \<le> length ld" "routes = regroup (zip cs ld) []"
    by (auto simp: organize_regroup split: if_splits)
  with cs(1) nlt s' show ?thesis by blast
qed

section \<open>Example runs\<close>

lemma round_robin_contract: "kmeans_contract round_robin"
  by (auto simp: kmeans_contract_def round_robin_def)

lemmas run_defs = effect_defs start_def

lemma four_found:
  "geocode_all finds_all half_jitter [''A'', ''B'', ''C'', ''D''] [] start =
     ([\<lparr>location = ''A'', stopover = True, coords = (0, 0)\<rparr>,
       \<lparr>location = ''B'', stopover = True, coords = (1, 0)\<rparr>,
       \<lparr>location = ''C'', stopover = True, coords = (2, 0)\<rparr>,
       \<lparr>location = ''D'', stopover = True, coords = (3, 0)\<rparr>],
      \<lparr>lookups = 4, draws = 0, global_rng = 0,
        trace = [Sleep 1, Lookup ''A'', Sleep 1, Lookup ''B'', Sleep 1, Lookup ''C'',
                 Sleep 1, Lookup ''D'']\<rparr>)"
  by (simp add: run_defs finds_all_def)

lemma example_run:
  "fst (cluster_addresses round_robin finds_all half_jitter [''A'', ''B'', ''C'', ''D''] 2 start) =
     Inr [(''driver_1'', \<lparr>waypoints = [\<lparr>location = ''A'', stopover = True\<rparr>,
                                       \<lparr>location = ''C'', stopover = True\<rparr>]\<rparr>),
          (''driver_2'', \<lparr>waypoints = [\<lparr>location = ''B'', stopover = True\<rparr>,
                                       \<lparr>location = ''D'', stopover = True\<rparr>]\<rparr>)]"
  by (simp add: cluster_addresses_unfold[OF four_found] round_robin_def add_waypoint_def
        driver_ids Let_def)

lemma three_of_five:
  "geocode_all three_found half_jitter [''A'', ''B'', ''C'', ''D'', ''E''] [] start =
     ([\<lparr>location = ''A'', stopover = True, coords = (0, 0)\<rparr>,
       \<lparr>location = ''B'', stopover = True, coords = (1, 0)\<rparr>,
       \<lparr>location = ''C'', stopover = True, coords = (2, 0)\<rparr>],
      \<lparr>lookups = 5, draws = 0, global_rng = 0,
        trace = [Sleep 1, Lookup ''A'', Sleep 1, Lookup ''B'', Sleep 1, Lookup ''C'',
                 Sleep 1, Lookup ''D'', Sleep 1, Lookup ''E'']\<rparr>)"
  by (simp add: run_defs three_found_def)

lemma main_unreachable:
  "fst (geocode_all unreachable half_jitter addresses_of_main [] start) = []"
  by (simp add: run_defs unreachable_def addresses_of_main_def)

lemma three_here:
  "geocode_all found_here half_jitter [''A'', ''B'', ''C''] [] start =
     ([\<lparr>location = ''A'', stopover = True, coords = (53, -113)\<rparr>,
       \<lparr>location = ''B'', stopover = True, coords = (53, -113)\<rparr>,
       \<lparr>location = ''C'', stopover = True, coords = (53, -113)\<rparr>],
      \<lparr>lookups = 3, draws = 0, global_rng = 0,
        trace = [Sleep 1, Lookup ''A'', Sleep 1, Lookup ''B'', Sleep 1, Lookup ''C'']\<rparr>)"
  by (simp add: run_defs found_here_def)

lemma skipping_run:
  "cluster_addresses skips_one found_here half_jitter [''A'', ''B'', ''C''] 3 start =
     (Inr [(''driver_1'', \<lparr>waypoints = [\<lparr>location = ''A'', stopover = True\<rparr>,
                                        \<lparr>location = ''C'', stopover = True\<rparr>]\<rparr>),
           (''driver_3'', \<lparr>waypoints = [\<lparr>location = ''B'', stopover = True\<rparr>]\<rparr>)],
      \<lparr>lookups = 3, draws = 0, global_rng = 0,
        trace = [Sleep 1, Lookup ''A'', Sleep 1, Lookup ''B'', Sleep 1, Lookup ''C'',
                 FitPredict 3 (Some 42) [(53, -113), (53, -113), (53, -113)]]\<rparr>)"
  by (simp add: cluster_addresses_unfold[OF three_here] skips_one_def add_waypoint_def
        driver_ids Let_def)

lemma two_after_timeout:
  "geocode_all second_try half_jitter [''A'', ''B''] [] start =
     ([\<lparr>location = ''A'', stopover = True, coords = (53, -113)\<rparr>,
       \<lparr>location = ''B'', stopover = True, coords = (53, -113)\<rparr>],
      \<lparr>lookups = 3, draws = 1, global_rng = 0,
        trace = [Sleep 1, Lookup ''A'', Sleep (3 / 2), Sleep 1, Lookup ''A'',
                 Sleep 1, Lookup ''B'']\<rparr>)"
  by (simp add: run_defs second_try_def half_jitter_def)

lemma two_here:
  "geocode_all found_here half_jitter [''A'', ''B''] [] start =
     ([\<lparr>location = ''A'', stopover = True, coords = (53, -113)\<rparr>,
       \<lparr>location = ''B'', stopover = True, coords = (53, -113)\<rparr>],
      \<lparr>lookups = 2, draws = 0, global_rng = 0,
        trace = [Sleep 1, Lookup ''A'', Sleep 1, Lookup ''B'']\<rparr>)"
  by (simp add: run_defs found_here_def)

lemma twice_here:
  "geocode_all found_here half_jitter [''A'', ''A''] [] start =
     ([\<lparr>location = ''A'', stopover = True, coords = (53, -113)\<rparr>,
       \<lparr>location = ''A'', stopover = True, coords = (53, -113)\<rparr>],
      \<lparr>lookups = 2, draws = 0, global_rng = 0,
        trace = [Sleep 1, Lookup ''A'', Sleep 1, Lookup ''A'']\<rparr>)"
  by (simp add: run_defs found_here_def)

lemma duplicate_run:
  "cluster_addresses round_robin found_here half_jitter [''A'', ''A''] 1 start =
     (Inr [(''driver_1'', \<lparr>waypoints = [\<lparr>location = ''A'', stopover = True\<rparr>,
                                        \<lparr>location = ''A'', stopover = True\<rparr>]\<rparr>)],
      \<lparr>lookups = 2, draws = 0, global_rng = 0,
        trace = [Sleep 1, Lookup ''A'', Sleep 1, Lookup ''A'',
                 FitPredict 1 (Some 42) [(53, -113), (53, -113)]]\<rparr>)"
  by (simp add: cluster_addresses_unfold[OF twice_here] round_robin_def add_waypoint_def
        driver_ids Let_def)

section \<open>The clusterer\<close>

text \<open>
  C1. When the clustering library keeps its contract and \<open>1 \<le> num_drivers \<le> N\<close>, with
  \<open>N\<close> the number of geocoded addresses, \<open>cluster_addresses\<close> returns a mapping with
  distinct keys, at most \<open>num_drivers\<close> of them, every one with a non-empty waypoint
  list; and the locations of all waypoints together are exactly the geocoded addresses,
  each occurrence once (equality of multisets).
\<close>

theorem cluster_addresses_partition:
  assumes km: "kmeans_contract km"
    and g: "geocode_all svc rnd addresses [] s = (ld, s1)"
    and k: "1 \<le> k" "k \<le> int (length ld)"
  shows "\<exists>routes s'. cluster_addresses km svc rnd addresses k s = (Inr routes, s') \<and>
           distinct (map fst routes) \<and> int (length routes) \<le> k \<and>
           (\<forall>(d, r)\<in>set routes. waypoints r \<noteq> []) \<and>
           mset (map location (all_waypoints routes)) = mset (map location ld)"
proof -
  from km k obtain cs where cs: "km k (Some 42) (global_rng s1) (map coords ld) = Inr cs" "length cs = length ld"
    "\<forall>c\<in>set cs. 0 \<le> c \<and> c < k"
    unfolding kmeans_contract_def by (metis length_map)
  define routes where "routes = regroup (zip cs ld) []"
  have org: "organize ld 0 cs [] = Inr routes"
    by (simp add: organize_regroup cs(2) routes_def)
  have run: "cluster_addresses km svc rnd addresses k s =
      (Inr routes, s1\<lparr>trace := trace s1 @ [FitPredict k (Some 42) (map coords ld)]\<rparr>)"
    using k cs(1) org by (simp add: cluster_addresses_unfold[OF g])
  have dist: "distinct (map fst routes)"
    unfolding routes_def by (rule distinct_regroup) simp
  have keys: "fst ` set routes = driver_id_of ` set cs"
    unfolding routes_def by (simp add: keys_regroup keys_zip[OF cs(2)])
  have "set cs \<subseteq> {0..<k}" using cs(3) by auto
  then have "card (driver_id_of ` set cs) \<le> card {0..<k}"
    by (meson card_image_le card_mono finite_atLeastLessThan_int le_trans finite_subset)
  moreover have "length routes = card (fst ` set routes)"
    using dist by (metis distinct_card length_map set_map)
  ultimately have len: "int (length routes) \<le> k" using keys k by simp
  have ne: "\<forall>(d, r)\<in>set routes. waypoints r \<noteq> []"
    unfolding routes_def by (rule each_route_regroup) simp_all
  have "all_waypoints [] = []" by (simp add: all_waypoints_def)
  then have "mset (all_waypoints routes) = mset (map waypoint_of ld)"
    unfolding routes_def by (simp add: all_waypoints_regroup zip_same_length[OF cs(2)])
  then have "mset (map location (all_waypoints routes)) = mset (map location (map waypoint_of ld))"
    by (metis mset_map)
  then have ms: "mset (map location (all_waypoints routes)) = mset (map location ld)"
    by (simp add: waypoint_of_def comp_def)
  from run dist len ne ms show ?thesis by blast
qed

theorem cluster_addresses_partition_witness:
  "\<exists>routes s'. cluster_addresses round_robin finds_all half_jitter [''A'', ''B'', ''C'', ''D''] 2 start
        = (Inr routes, s') \<and>
      distinct (map fst routes) \<and> int (length routes) \<le> 2 \<and>
      (\<forall>(d, r)\<in>set routes. waypoints r \<noteq> []) \<and>
      mset (map location (all_waypoints routes)) = mset [''A'', ''B'', ''C'', ''D'']"
  using cluster_addresses_partition[OF round_robin_contract four_found, of 2] by simp

text \<open>
  C2. When fewer than \<open>num_drivers\<close> addresses are geocoded, \<open>cluster_addresses\<close> raises
  \<open>ValueError\<close> with the message that carries both counts, and no clustering call has
  been made; \<open>main\<close> then writes no file (and makes no clustering call either).
\<close>

theorem not_enough_addresses:
  "(int (length (fst (geocode_all svc rnd addresses [] s))) < k \<longrightarrow>
      cluster_addresses km svc rnd addresses k s =
        (Inl (ValueError
           (''Not enough valid addresses ('' @
              str_int (int (length (fst (geocode_all svc rnd addresses [] s)))) @
              '') for '' @ str_int k @ '' drivers'')),
         snd (geocode_all svc rnd addresses [] s)) \<and>
      filter is_fit (trace (snd (cluster_addresses km svc rnd addresses k s))) =
        filter is_fit (trace s)) \<and>
   (int (length (fst (geocode_all svc rnd addresses_of_main [] s))) < k \<longrightarrow>
      filter is_write (trace (main km svc rnd k s)) = filter is_write (trace s) \<and>
      filter is_fit (trace (main km svc rnd k s)) = filter is_fit (trace s))"
proof (intro conjI impI)
  obtain ld s1 where g: "geocode_all svc rnd addresses [] s = (ld, s1)"
    by (cases "geocode_all svc rnd addresses [] s")
  assume "int (length (fst (geocode_all svc rnd addresses [] s))) < k"
  with g have lt: "int (length ld) < k" by simp
  then have run: "cluster_addresses km svc rnd addresses k s =
      (Inl (ValueError (not_enough (length ld) k)), s1)"
    by (simp add: cluster_addresses_unfold[OF g])
  then show "cluster_addresses km svc rnd addresses k s =
        (Inl (ValueError
           (''Not enough valid addresses ('' @
              str_int (int (length (fst (geocode_all svc rnd addresses [] s)))) @
              '') for '' @ str_int k @ '' drivers'')),
         snd (geocode_all svc rnd addresses [] s))"
    using g by (simp add: not_enough_def)
  have "filter is_fit (trace s1) = filter is_fit (trace s)"
    using geocode_all_quiet[of is_fit svc rnd addresses "[]" s] g by simp
  with run show "filter is_fit (trace (snd (cluster_addresses km svc rnd addresses k s))) =
        filter is_fit (trace s)" by simp
next
  obtain ld s1 where g: "geocode_all svc rnd addresses_of_main [] s = (ld, s1)"
    by (cases "geocode_all svc rnd addresses_of_main [] s")
  assume "int (length (fst (geocode_all svc rnd addresses_of_main [] s))) < k"
  with g have lt: "int (length ld) < k" by simp
  then have run: "cluster_addresses km svc rnd addresses_of_main k s =
      (Inl (ValueError (not_enough (length ld) k)), s1)"
    by (simp add: cluster_addresses_unfold[OF g])
  then have m: "main km svc rnd k s = print (''Error: '' @ not_enough (length ld) k) s1"
    by (simp add: main_def str_error_def)
  have "filter is_write (trace s1) = filter is_write (trace s)"
    using geocode_all_quiet[of is_write svc rnd addresses_of_main "[]" s] g by simp
  with m show "filter is_write (trace (main km svc rnd k s)) = filter is_write (trace s)"
    by (simp add: print_def)
  have "filter is_fit (trace s1) = filter is_fit (trace s)"
    using geocode_all_quiet[of is_fit svc rnd addresses_of_main "[]" s] g by simp
  with m show "filter is_fit (trace (main km svc rnd k s)) = filter is_fit (trace s)"
    by (simp add: print_def)
qed

theorem not_enough_addresses_witness:
  "fst (cluster_addresses round_robin three_found half_jitter [''A'', ''B'', ''C'', ''D'', ''E''] 5 start) =
     Inl (ValueError ''Not enough valid addresses (3) for 5 drivers'') \<and>
   filter is_fit (trace (snd (cluster_addresses round_robin three_found half_jitter
      [''A'', ''B'', ''C'', ''D'', ''E''] 5 start))) = [] \<and>
   filter is_write (trace (main round_robin unreachable half_jitter 2 start)) = [] \<and>
   filter is_fit (trace (main round_robin unreachable half_jitter 2 start)) = []"
proof -
  have h1: "int (length (fst (geocode_all three_found half_jitter
      [''A'', ''B'', ''C'', ''D'', ''E''] [] start))) < 5"
    by (subst three_of_five) simp
  have h2: "int (length (fst (geocode_all unreachable half_jitter addresses_of_main [] start))) < 2"
    by (subst main_unreachable) simp
  have digits: "str_int 3 = ''3''" "str_int 5 = ''5''"
    by (simp_all add: str_int_def str_nat.simps digit_char_def char_of_eq_iff)
  from not_enough_addresses[where km = round_robin and svc = three_found and rnd = half_jitter
      and addresses = "[''A'', ''B'', ''C'', ''D'', ''E'']" and k = 5 and s = start,
      THEN conjunct1, THEN mp, OF h1]
    not_enough_addresses[where km = round_robin and svc = unreachable and rnd = half_jitter
      and k = 2 and s = start, THEN conjunct2, THEN mp, OF h2]
  show ?thesis
    unfolding three_of_five by (simp add: digits start_def)
qed

text \<open>
  C4. In every mapping \<open>cluster_addresses\<close> returns, the locations of each driver's
  waypoints, in their order, are a subsequence of the input addresses.
\<close>

theorem waypoints_keep_input_order:
  assumes "cluster_addresses km svc rnd addresses k s = (Inr routes, s')"
  shows "\<forall>(d, r)\<in>set routes. subseq (map location (waypoints r)) addresses"
proof -
  obtain ld s1 where g: "geocode_all svc rnd addresses [] s = (ld, s1)"
    by (cases "geocode_all svc rnd addresses [] s")
  from geocode_all_acc[OF g] have sub: "subseq (map location ld) addresses" by auto
  from cluster_addresses_Inr[OF assms g] obtain cs where r: "routes = regroup (zip cs ld) []"
    by blast
  show ?thesis
  proof (clarify)
    fix d r assume "(d, r) \<in> set routes"
    with r have "waypoints r =
        map (\<lambda>(c, p). waypoint_of p) (filter (\<lambda>(c, p). driver_id_of c = d) (zip cs ld))"
      by (simp add: route_in_regroup)
    then have "map location (waypoints r) =
        map (\<lambda>(c, p). location p) (filter (\<lambda>(c, p). driver_id_of c = d) (zip cs ld))"
      by (simp add: waypoint_of_def case_prod_beta comp_def)
    then have "subseq (map location (waypoints r)) (map location ld)"
      using subseq_zip_snd[of location _ cs ld] by simp
    then show "subseq (map location (waypoints r)) addresses"
      using sub by (rule subseq_order.order_trans)
  qed
qed

theorem waypoints_keep_input_order_witness:
  "\<exists>routes s'.
      cluster_addresses round_robin finds_all half_jitter [''A'', ''B'', ''C'', ''D''] 2 start =
        (Inr routes, s') \<and>
      map (\<lambda>(d, r). map location (waypoints r)) routes = [[''A'', ''C''], [''B'', ''D'']] \<and>
      list_all (\<lambda>(d, r). subseq (map location (waypoints r)) [''A'', ''B'', ''C'', ''D''])
        routes"
proof -
  have run: "cluster_addresses round_robin finds_all half_jitter [''A'', ''B'', ''C'', ''D''] 2 start =
      (Inr [(''driver_1'', \<lparr>waypoints = [\<lparr>location = ''A'', stopover = True\<rparr>,
                                          \<lparr>location = ''C'', stopover = True\<rparr>]\<rparr>),
            (''driver_2'', \<lparr>waypoints = [\<lparr>location = ''B'', stopover = True\<rparr>,
                                          \<lparr>location = ''D'', stopover = True\<rparr>]\<rparr>)],
       snd (cluster_addresses round_robin finds_all half_jitter [''A'', ''B'', ''C'', ''D''] 2 start))"
    using example_run by (metis prod.collapse)
  have m: "map (\<lambda>(d, r). map location (waypoints r))
      [(''driver_1'', \<lparr>waypoints = [\<lparr>location = ''A'', stopover = True\<rparr>,
                                    \<lparr>location = ''C'', stopover = True\<rparr>]\<rparr>),
       (''driver_2'', \<lparr>waypoints = [\<lparr>location = ''B'', stopover = True\<rparr>,
                                    \<lparr>location = ''D'', stopover = True\<rparr>]\<rparr>)] =
      [[''A'', ''C''], [''B'', ''D'']]"
    by simp
  from waypoints_keep_input_order[OF run]
  have l: "list_all (\<lambda>(d, r). subseq (map location (waypoints r)) [''A'', ''B'', ''C'', ''D''])
      [(''driver_1'', \<lparr>waypoints = [\<lparr>location = ''A'', stopover = True\<rparr>,
                                    \<lparr>location = ''C'', stopover = True\<rparr>]\<rparr>),
       (''driver_2'', \<lparr>waypoints = [\<lparr>location = ''B'', stopover = True\<rparr>,
                                    \<lparr>location = ''D'', stopover = True\<rparr>]\<rparr>)]"
    unfolding list_all_iff .
  show ?thesis
    by (rule exI, rule exI, intro conjI, rule run, rule m, rule l)
qed



text \<open>
  C7, as the claim states it, fails for the output mapping: two runs can geocode the
  same coordinates for different addresses, and then the mappings differ.
\<close>

theorem same_coordinates_different_mapping:
  "map coords (fst (geocode_all first_only half_jitter [''A'', ''B''] [] start)) =
   map coords (fst (geocode_all second_only half_jitter [''A'', ''B''] [] start)) \<and>
   fst (cluster_addresses round_robin first_only half_jitter [''A'', ''B''] 1 start) =
     Inr [(''driver_1'', \<lparr>waypoints = [\<lparr>location = ''A'', stopover = True\<rparr>]\<rparr>)] \<and>
   fst (cluster_addresses round_robin second_only half_jitter [''A'', ''B''] 1 start) =
     Inr [(''driver_1'', \<lparr>waypoints = [\<lparr>location = ''B'', stopover = True\<rparr>]\<rparr>)]"
  by (simp add: cluster_addresses_def fit_predict_def run_defs first_only_def second_only_def
        round_robin_def add_waypoint_def driver_ids Let_def)

text \<open>
  C7, amended. With a library that is repeatable for an integer seed, two runs that
  geocode the same coordinates and are given the same \<open>num_drivers\<close> get the same
  labels from the clustering call, whatever the state of the global generator in each
  run, because the code passes the seed 42: either both fail with the same error, or
  both regroup their points by one and the same list of labels. When the geocoded points
  carry the same addresses as well, the two results are equal.
\<close>

theorem clustering_deterministic:
  assumes rep: "seeded_repeatable km"
    and g1: "geocode_all svc1 rnd1 addresses1 [] s1 = (ld1, t1)"
    and g2: "geocode_all svc2 rnd2 addresses2 [] s2 = (ld2, t2)"
    and c: "map coords ld1 = map coords ld2"
  shows "((\<exists>e. fst (cluster_addresses km svc1 rnd1 addresses1 k s1) = Inl e \<and>
               fst (cluster_addresses km svc2 rnd2 addresses2 k s2) = Inl e) \<or>
          (\<exists>cs. km k (Some 42) (global_rng t1) (map coords ld1) = Inr cs \<and>
                km k (Some 42) (global_rng t2) (map coords ld2) = Inr cs \<and>
                fst (cluster_addresses km svc1 rnd1 addresses1 k s1) = organize ld1 0 cs [] \<and>
                fst (cluster_addresses km svc2 rnd2 addresses2 k s2) = organize ld2 0 cs [])) \<and>
         (map location ld1 = map location ld2 \<longrightarrow>
            fst (cluster_addresses km svc1 rnd1 addresses1 k s1) =
            fst (cluster_addresses km svc2 rnd2 addresses2 k s2))"
proof (intro conjI impI)
  from c have len: "length ld1 = length ld2" by (metis length_map)
  from rep c have same: "km k (Some 42) (global_rng t1) (map coords ld1) =
      km k (Some 42) (global_rng t2) (map coords ld2)"
    unfolding seeded_repeatable_def by simp
  show "(\<exists>e. fst (cluster_addresses km svc1 rnd1 addresses1 k s1) = Inl e \<and>
               fst (cluster_addresses km svc2 rnd2 addresses2 k s2) = Inl e) \<or>
          (\<exists>cs. km k (Some 42) (global_rng t1) (map coords ld1) = Inr cs \<and>
                km k (Some 42) (global_rng t2) (map coords ld2) = Inr cs \<and>
                fst (cluster_addresses km svc1 rnd1 addresses1 k s1) = organize ld1 0 cs [] \<and>
                fst (cluster_addresses km svc2 rnd2 addresses2 k s2) = organize ld2 0 cs [])"
  proof (cases "int (length ld1) < k")
    case True
    with len show ?thesis
      by (simp add: cluster_addresses_unfold[OF g1] cluster_addresses_unfold[OF g2])
  next
    case False
    with len same show ?thesis
      by (cases "km k (Some 42) (global_rng t2) (map coords ld2)")
         (simp_all add: cluster_addresses_unfold[OF g1] cluster_addresses_unfold[OF g2])
  qed
  assume l: "map location ld1 = map location ld2"
  from geocode_all_acc[OF g1] geocode_all_acc[OF g2]
  have "\<forall>p\<in>set ld1. stopover p" "\<forall>p\<in>set ld2. stopover p" by auto
  then have e: "ld1 = ld2" using l c by (rule same_points)
  from same have same': "km k (Some 42) (global_rng t1) (map coords ld2) =
      km k (Some 42) (global_rng t2) (map coords ld2)" unfolding e .
  show "fst (cluster_addresses km svc1 rnd1 addresses1 k s1) =
            fst (cluster_addresses km svc2 rnd2 addresses2 k s2)"
    unfolding cluster_addresses_unfold[OF g1] cluster_addresses_unfold[OF g2] e same' by simp
qed

lemma round_robin_repeatable: "seeded_repeatable round_robin"
  by (simp add: seeded_repeatable_def round_robin_def)

lemma two_here_elsewhere:
  "geocode_all found_here half_jitter [''A'', ''B''] [] (start\<lparr>global_rng := 7\<rparr>) =
     ([\<lparr>location = ''A'', stopover = True, coords = (53, -113)\<rparr>,
       \<lparr>location = ''B'', stopover = True, coords = (53, -113)\<rparr>],
      \<lparr>lookups = 2, draws = 0, global_rng = 7,
        trace = [Sleep 1, Lookup ''A'', Sleep 1, Lookup ''B'']\<rparr>)"
  by (simp add: run_defs found_here_def)

theorem clustering_deterministic_witness:
  "fst (cluster_addresses round_robin second_try half_jitter [''A'', ''B''] 2 start) =
   fst (cluster_addresses round_robin found_here half_jitter [''A'', ''B''] 2
         (start\<lparr>global_rng := 7\<rparr>)) \<and>
   snd (cluster_addresses round_robin second_try half_jitter [''A'', ''B''] 2 start) \<noteq>
   snd (cluster_addresses round_robin found_here half_jitter [''A'', ''B''] 2
         (start\<lparr>global_rng := 7\<rparr>)) \<and>
   fst (fit_predict round_robin 2 None [(53, -113), (53, -113)] start) \<noteq>
   fst (fit_predict round_robin 2 None [(53, -113), (53, -113)] (start\<lparr>global_rng := 7\<rparr>))"
proof -
  have a: "fst (cluster_addresses round_robin second_try half_jitter [''A'', ''B''] 2 start) =
        fst (cluster_addresses round_robin found_here half_jitter [''A'', ''B''] 2
              (start\<lparr>global_rng := 7\<rparr>))"
    using clustering_deterministic[OF round_robin_repeatable two_after_timeout
        two_here_elsewhere, of 2] by simp
  have b: "snd (cluster_addresses round_robin second_try half_jitter [''A'', ''B''] 2 start) \<noteq>
        snd (cluster_addresses round_robin found_here half_jitter [''A'', ''B''] 2
              (start\<lparr>global_rng := 7\<rparr>))"
    by (simp add: cluster_addresses_unfold[OF two_after_timeout]
          cluster_addresses_unfold[OF two_here_elsewhere])
  have c: "fst (fit_predict round_robin 2 None [(53, -113), (53, -113)] start) \<noteq>
        fst (fit_predict round_robin 2 None [(53, -113), (53, -113)] (start\<lparr>global_rng := 7\<rparr>))"
    by (simp add: fit_predict_def round_robin_def start_def)
  from a b c show ?thesis by (intro conjI)
qed

text \<open>
  C8. Every point \<open>geocode_address\<close> returns, and every waypoint of every driver in a
  mapping \<open>cluster_addresses\<close> returns, has \<open>stopover\<close> true.
\<close>

theorem stopover_always_true:
  "(geocode_address svc rnd address s = (Some p, s') \<longrightarrow> stopover p) \<and>
   (cluster_addresses km svc rnd addresses k s = (Inr routes, s'') \<longrightarrow>
      (\<forall>(d, r)\<in>set routes. \<forall>w\<in>set (waypoints r). stopover w))"
proof (intro conjI impI)
  assume "geocode_address svc rnd address s = (Some p, s')"
  then show "stopover p" by (simp add: geocode_address_Some)
next
  assume run: "cluster_addresses km svc rnd addresses k s = (Inr routes, s'')"
  obtain ld s1 where g: "geocode_all svc rnd addresses [] s = (ld, s1)"
    by (cases "geocode_all svc rnd addresses [] s")
  from cluster_addresses_Inr[OF run g] obtain cs where r: "routes = regroup (zip cs ld) []"
    by blast
  show "\<forall>(d, r)\<in>set routes. \<forall>w\<in>set (waypoints r). stopover w"
    unfolding r by (rule each_route_regroup) (auto simp: waypoint_of_def)
qed

theorem stopover_always_true_witness:
  "(\<exists>p s'. geocode_address second_try half_jitter ''A'' start = (Some p, s') \<and> stopover p) \<and>
   (\<exists>routes s'.
      cluster_addresses skips_one found_here half_jitter [''A'', ''B'', ''C''] 3 start =
        (Inr routes, s') \<and>
      list_all (\<lambda>(d, r). list_all stopover (waypoints r)) routes)"
proof -
  have h: "geocode_address second_try half_jitter ''A'' start =
     (Some \<lparr>location = ''A'', stopover = True, coords = (53, -113)\<rparr>,
      snd (geocode_address second_try half_jitter ''A'' start))"
    by (simp add: run_defs second_try_def)
  from stopover_always_true[where svc = second_try and rnd = half_jitter and address = "''A''"
         and s = start, THEN conjunct1, THEN mp, OF h]
  have a: "\<exists>p s'. geocode_address second_try half_jitter ''A'' start = (Some p, s') \<and> stopover p"
    using h by blast
  from stopover_always_true[where km = skips_one and svc = found_here and rnd = half_jitter
         and addresses = "[''A'', ''B'', ''C'']" and k = 3 and s = start,
         THEN conjunct2, THEN mp, OF skipping_run]
  have l: "list_all (\<lambda>(d, r). list_all stopover (waypoints r))
      [(''driver_1'', \<lparr>waypoints = [\<lparr>location = ''A'', stopover = True\<rparr>,
                                    \<lparr>location = ''C'', stopover = True\<rparr>]\<rparr>),
       (''driver_3'', \<lparr>waypoints = [\<lparr>location = ''B'', stopover = True\<rparr>]\<rparr>)]"
    unfolding list_all_iff by blast
  have
    "\<exists>routes s'.
      cluster_addresses skips_one found_here half_jitter [''A'', ''B'', ''C''] 3 start =
        (Inr routes, s') \<and>
      list_all (\<lambda>(d, r). list_all stopover (waypoints r)) routes"
    by (rule exI, rule exI, intro conjI, rule skipping_run, rule l)
  with a show ?thesis ..
qed

text \<open>
  C9. For \<open>num_drivers \<le> 0\<close> the validation does not fire, whatever was geocoded: the
  clustering call is made with that \<open>num_drivers\<close>, and its outcome is the outcome of
  \<open>cluster_addresses\<close>.
\<close>

theorem nonpositive_drivers_reach_clustering:
  assumes "k \<le> 0"
  shows "\<not> int (length (fst (geocode_all svc rnd addresses [] s))) < k \<and>
         cluster_addresses km svc rnd addresses k s =
           (case km k (Some 42) (global_rng (snd (geocode_all svc rnd addresses [] s)))
                  (map coords (fst (geocode_all svc rnd addresses [] s))) of
              Inl e \<Rightarrow> Inl e
            | Inr cs \<Rightarrow> organize (fst (geocode_all svc rnd addresses [] s)) 0 cs [],
            (snd (geocode_all svc rnd addresses [] s))
              \<lparr>trace := trace (snd (geocode_all svc rnd addresses [] s)) @
                 [FitPredict k (Some 42) (map coords (fst (geocode_all svc rnd addresses [] s)))]\<rparr>)"
proof -
  obtain ld s1 where g: "geocode_all svc rnd addresses [] s = (ld, s1)"
    by (cases "geocode_all svc rnd addresses [] s")
  from assms have "\<not> int (length ld) < k" by simp
  then show ?thesis
    unfolding g fst_conv snd_conv cluster_addresses_unfold[OF g] by simp
qed

theorem nonpositive_drivers_reach_clustering_witness:
  "cluster_addresses round_robin found_here half_jitter [''A'', ''B''] 0 start =
     (Inl (ValueError ''invalid n_clusters''),
      \<lparr>lookups = 2, draws = 0, global_rng = 0,
        trace = [Sleep 1, Lookup ''A'', Sleep 1, Lookup ''B'',
                 FitPredict 0 (Some 42) [(53, -113), (53, -113)]]\<rparr>)"
proof -
  have "(0::int) \<le> 0" by simp
  from nonpositive_drivers_reach_clustering[OF this, of found_here half_jitter "[''A'', ''B'']"
      start round_robin, THEN conjunct2]
  show ?thesis unfolding two_here by (simp add: round_robin_def)
qed

text \<open>
  C10. The list the first loop builds is the list of the points that the calls of
  \<open>geocode_address\<close>, one for each occurrence of an address in the input, returned, in
  input order: a duplicate is geocoded again and kept again. When the library returns
  one label per point, the waypoints of all drivers together are as many as those
  successful results, with the same locations counted with multiplicity; every
  occurrence costs at least one lookup of its own; and when every lookup finds its
  address, there are as many waypoints as input addresses, duplicates included.
\<close>

theorem one_waypoint_per_success:
  assumes run: "cluster_addresses km svc rnd addresses k s = (Inr routes, s')"
    and g: "geocode_all svc rnd addresses [] s = (ld, s1)"
    and cs: "km k (Some 42) (global_rng s1) (map coords ld) = Inr cs" "length cs = length ld"
  shows "ld = successes (geocode_each svc rnd addresses s) \<and>
         length (geocode_each svc rnd addresses s) = length addresses \<and>
         length (all_waypoints routes) = length (successes (geocode_each svc rnd addresses s)) \<and>
         mset (map location (all_waypoints routes)) =
           mset (map location (successes (geocode_each svc rnd addresses s))) \<and>
         lookups s + length addresses \<le> lookups s' \<and>
         ((\<forall>n a. \<exists>c. svc n a = Found c) \<longrightarrow>
            length (all_waypoints routes) = length addresses \<and>
            mset (map location (all_waypoints routes)) = mset addresses)"
proof -
  have ld: "ld = successes (geocode_each svc rnd addresses s)"
    using geocode_all_each[of svc rnd addresses "[]" s] g by simp
  from cluster_addresses_Inr[OF run g] cs(1) have r: "routes = regroup (zip cs ld) []"
    and s': "s' = s1\<lparr>trace := trace s1 @ [FitPredict k (Some 42) (map coords ld)]\<rparr>" by auto
  have "all_waypoints [] = []" by (simp add: all_waypoints_def)
  then have m: "mset (all_waypoints routes) = mset (map waypoint_of ld)"
    unfolding r by (simp add: all_waypoints_regroup zip_same_length[OF cs(2)])
  then have "size (mset (all_waypoints routes)) = size (mset (map waypoint_of ld))" by simp
  then have len: "length (all_waypoints routes) = length ld" by simp
  from m have "mset (map location (all_waypoints routes)) = mset (map location (map waypoint_of ld))"
    by (metis mset_map)
  then have ms: "mset (map location (all_waypoints routes)) = mset (map location ld)"
    by (simp add: waypoint_of_def comp_def)
  have lk: "lookups s + length addresses \<le> lookups s'"
    using geocode_all_lookups[of s addresses svc rnd "[]"] g s' by simp
  have all: "(\<forall>n a. \<exists>c. svc n a = Found c) \<longrightarrow>
            length (all_waypoints routes) = length addresses \<and>
            mset (map location (all_waypoints routes)) = mset addresses"
  proof
    assume "\<forall>n a. \<exists>c. svc n a = Found c"
    then have e: "map location ld = addresses" unfolding ld by (rule all_found_each)
    then have "length ld = length addresses" by (metis length_map)
    with len ms e show "length (all_waypoints routes) = length addresses \<and>
            mset (map location (all_waypoints routes)) = mset addresses" by simp
  qed
  from ld len ms lk all show ?thesis
    by (simp add: length_geocode_each)
qed

theorem one_waypoint_per_success_witness:
  "\<exists>routes s'.
      cluster_addresses round_robin found_here half_jitter [''A'', ''A''] 1 start =
        (Inr routes, s') \<and>
      length (all_waypoints routes) = 2 \<and>
      mset (map location (all_waypoints routes)) = mset [''A'', ''A''] \<and>
      length (successes (geocode_each found_here half_jitter [''A'', ''A''] start)) = 2"
proof -
  have cs: "round_robin 1 (Some 42)
      (global_rng \<lparr>lookups = 2, draws = 0, global_rng = 0,
         trace = [Sleep 1, Lookup ''A'', Sleep 1, Lookup ''A'']\<rparr>)
      (map coords
       [\<lparr>location = ''A'', stopover = True, coords = (53, -113)\<rparr>,
        \<lparr>location = ''A'', stopover = True, coords = (53, -113)\<rparr>]) = Inr [0, 0]"
    by (simp add: round_robin_def)
  have len: "length [0::int, 0] = length
       [\<lparr>location = ''A'', stopover = True, coords = (53, -113)\<rparr>,
        \<lparr>location = ''A'', stopover = True, coords = (53::real, -113::real)\<rparr>]"
    by simp
  have found: "\<forall>n a. \<exists>c. found_here n a = Found c" by (simp add: found_here_def)
  note inst = one_waypoint_per_success[OF duplicate_run twice_here cs len]
  from inst have e: "[\<lparr>location = ''A'', stopover = True, coords = (53, -113)\<rparr>,
        \<lparr>location = ''A'', stopover = True, coords = (53, -113)\<rparr>] =
      successes (geocode_each found_here half_jitter [''A'', ''A''] start)" by (rule conjunct1)
  have n: "length (successes (geocode_each found_here half_jitter [''A'', ''A''] start)) = 2"
    unfolding e[symmetric] by simp
  from inst found have w: "length (all_waypoints
      [(''driver_1'', \<lparr>waypoints = [\<lparr>location = ''A'', stopover = True\<rparr>,
                                    \<lparr>location = ''A'', stopover = True\<rparr>]\<rparr>)]) = length [''A'', ''A''] \<and>
      mset (map location (all_waypoints
      [(''driver_1'', \<lparr>waypoints = [\<lparr>location = ''A'', stopover = True\<rparr>,
                                    \<lparr>location = ''A'', stopover = True\<rparr>]\<rparr>)])) = mset [''A'', ''A'']"
    by blast
  then have w1: "length (all_waypoints
      [(''driver_1'', \<lparr>waypoints = [\<lparr>location = ''A'', stopover = True\<rparr>,
                                    \<lparr>location = ''A'', stopover = True\<rparr>]\<rparr>)]) = 2" by simp
  show ?thesis
    by (rule exI, rule exI, intro conjI, rule duplicate_run, rule w1, rule w[THEN conjunct2], rule n)
qed

end
